theory Spec2Isabelle
  imports Complex_Main "HOL-Library.Log_Nat"
begin

chapter \<open>The SIXS backend of binoculars: rotations, projections, kinematic chains, jobs\<close>

text \<open>
  A shallow embedding of \<^verbatim>\<open>binoculars/backends/sixs.py\<close>. Python floats are
  read as real numbers wherever the code only does arithmetic with them (the rotation
  and projection formulas). Where a float decides a branch or an exception, it is
  modelled as a binary64 value: the comparison \<^verbatim>\<open>pointcount > target_weight * 1.4\<close>
  with the exact binary64 product, and the normalisation a second time on binary64
  floats, for what it does with rounding, overflow, underflow and entries that are not
  finite. Exceptions are values: a function that can raise returns \<open>exn + 'a\<close>, with
  \<open>Inl\<close> for the raised exception. Generators are the list of what they yield,
  together with the exception that ended them, if one did.
\<close>

section \<open>The embedding\<close>

subsection \<open>Exceptions\<close>

datatype exn_class =
    NotImplementedError | ValueError | IOError | KeyError | TypeError | OverflowError
  | LinAlgError | ConfigError | NetworkXNoPath | NodeNotFound

text \<open>An exception object: its class and its \<^verbatim>\<open>args\<close> tuple.\<close>

datatype exn = Exn exn_class "string list"

subsection \<open>Vectors and matrices (numpy arrays of shape (3,) and (3, 3))\<close>

type_synonym vec3 = "real \<times> real \<times> real"
type_synonym mat3 = "vec3 \<times> vec3 \<times> vec3"

text \<open>A (3, H, W) array, held as H rows of W columns, each column the 3-vector along axis 0.\<close>

type_synonym pixel_array = "vec3 list list"

definition vdot :: "vec3 \<Rightarrow> vec3 \<Rightarrow> real" where
  "vdot a b = (case a of (a0, a1, a2) \<Rightarrow> case b of (b0, b1, b2) \<Rightarrow>
     a0 * b0 + a1 * b1 + a2 * b2)"

definition vsub :: "vec3 \<Rightarrow> vec3 \<Rightarrow> vec3" where
  "vsub a b = (case a of (a0, a1, a2) \<Rightarrow> case b of (b0, b1, b2) \<Rightarrow>
     (a0 - b0, a1 - b1, a2 - b2))"

definition vscale :: "real \<Rightarrow> vec3 \<Rightarrow> vec3" where
  "vscale c a = (case a of (a0, a1, a2) \<Rightarrow> (a0 * c, a1 * c, a2 * c))"

definition transpose3 :: "mat3 \<Rightarrow> mat3" where
  "transpose3 A = (case A of ((a, b, c), (d, e, f), (g, h, i)) \<Rightarrow>
     ((a, d, g), (b, e, h), (c, f, i)))"

text \<open>\<^verbatim>\<open>numpy.dot\<close> of a matrix with a vector, and of two matrices.\<close>

definition dot_mv :: "mat3 \<Rightarrow> vec3 \<Rightarrow> vec3" where
  "dot_mv A v = (case A of (r0, r1, r2) \<Rightarrow> (vdot r0 v, vdot r1 v, vdot r2 v))"

definition dot :: "mat3 \<Rightarrow> mat3 \<Rightarrow> mat3" where
  "dot A B = (case transpose3 B of (c0, c1, c2) \<Rightarrow> case A of (r0, r1, r2) \<Rightarrow>
     ((vdot r0 c0, vdot r0 c1, vdot r0 c2),
      (vdot r1 c0, vdot r1 c1, vdot r1 c2),
      (vdot r2 c0, vdot r2 c1, vdot r2 c2)))"

definition eye3 :: mat3 where
  "eye3 = ((1, 0, 0), (0, 1, 0), (0, 0, 1))"

definition det3 :: "mat3 \<Rightarrow> real" where
  "det3 A = (case A of ((a, b, c), (d, e, f), (g, h, i)) \<Rightarrow>
     a * (e * i - f * h) - b * (d * i - f * g) + c * (d * h - e * g))"

text \<open>
  \<^verbatim>\<open>numpy.linalg.inv\<close> over the reals: the inverse of the matrix, or
  \<^verbatim>\<open>LinAlgError\<close> where there is none. Which matrices numpy rejects is decided by
  a zero pivot of its floating-point factorisation; the exact test stands for it here,
  and no property below says which matrices are rejected.
\<close>

definition linalg_inv :: "mat3 \<Rightarrow> exn + mat3" where
  "linalg_inv A = (case A of ((a, b, c), (d, e, f), (g, h, i)) \<Rightarrow>
     let dt = det3 A in
     if dt = 0 then Inl (Exn LinAlgError [''Singular matrix''])
     else Inr (((e * i - f * h) / dt, (c * h - b * i) / dt, (b * f - c * e) / dt),
               ((f * g - d * i) / dt, (a * i - c * g) / dt, (c * d - a * f) / dt),
               ((d * h - e * g) / dt, (b * g - a * h) / dt, (a * e - b * d) / dt)))"

text \<open>
  \<^verbatim>\<open>numpy.tensordot(A, kf, axes=1)\<close> for a (3, 3) matrix and a (3, H, W) array: the
  matrix applied to every column.
\<close>

definition tensordot :: "mat3 \<Rightarrow> pixel_array \<Rightarrow> pixel_array" where
  "tensordot A kf = map (map (dot_mv A)) kf"

text \<open>Unpacking a (3, H, W) array along axis 0 into its three (H, W) planes.\<close>

definition unstack :: "pixel_array \<Rightarrow> real list list \<times> real list list \<times> real list list" where
  "unstack a = (map (map fst) a, map (map (\<lambda>v. fst (snd v))) a, map (map (\<lambda>v. snd (snd v))) a)"

subsection \<open>Rotation matrices\<close>

text \<open>\<^verbatim>\<open>M(theta, u)\<close>, lines 293 to 313.\<close>

definition M :: "real \<Rightarrow> vec3 \<Rightarrow> mat3" where
  "M theta u =
     (case u of (u0, u1, u2) \<Rightarrow>
        let c = cos theta;
            one_minus_c = 1 - c;
            s = sin theta
        in ((c + u0\<^sup>2 * one_minus_c,
             u0 * u1 * one_minus_c - u2 * s,
             u0 * u2 * one_minus_c + u1 * s),
            (u0 * u1 * one_minus_c + u2 * s,
             c + u1\<^sup>2 * one_minus_c,
             u1 * u2 * one_minus_c - u0 * s),
            (u0 * u2 * one_minus_c - u1 * s,
             u1 * u2 * one_minus_c + u0 * s,
             c + u2\<^sup>2 * one_minus_c)))"

subsection \<open>Normalisation along axis 0\<close>

text \<open>\<^verbatim>\<open>numpy.linalg.norm(a, 2, axis=0)\<close> of one column.\<close>

definition norm2 :: "vec3 \<Rightarrow> real" where
  "norm2 v = (case v of (x, y, z) \<Rightarrow> sqrt (x\<^sup>2 + y\<^sup>2 + z\<^sup>2))"

text \<open>
  Lines 352 and 353 of \<^verbatim>\<open>normalized\<close>, as the projections call it (\<^verbatim>\<open>axis=0\<close>,
  \<^verbatim>\<open>order=2\<close>): the (H, W) array of column norms, every zero replaced by one.
\<close>

definition normalized_l2 :: "pixel_array \<Rightarrow> real list list" where
  "normalized_l2 a =
     (let l2 = map (map norm2) a
      in map (map (\<lambda>x. if x = 0 then 1 else x)) l2)"

text \<open>Line 354: every column divided by its entry of that array.\<close>

definition normalized :: "pixel_array \<Rightarrow> pixel_array" where
  "normalized a =
     map2 (map2 (\<lambda>v d. case v of (x, y, z) \<Rightarrow> (x / d, y / d, z / d))) a (normalized_l2 a)"

text \<open>
  The three definitions above read the floats of the array as real numbers; the
  projections below use them. What \<^verbatim>\<open>normalized\<close> does with rounding, overflow,
  underflow and entries that are not finite is a matter of the floats themselves, which
  the next subsection models.
\<close>

subsection \<open>Normalisation on binary64 floats\<close>

text \<open>
  A numpy \<^verbatim>\<open>float64\<close>: a finite value, an infinity or NaN. The two signed zeros are
  one value here; they compare equal, and \<^verbatim>\<open>normalized\<close> does nothing that tells
  them apart other than the sign of a zero it returns.
\<close>

datatype npfloat = Finite real | PosInf | NegInf | NaN

text \<open>Rounding a real to the nearest integer, a tie going to the even one.\<close>

definition rne :: "real \<Rightarrow> int" where
  "rne y =
     (let f = \<lfloor>y\<rfloor>; d = y - of_int f
      in if d < 1 / 2 then f else if 1 / 2 < d then f + 1 else if even f then f else f + 1)"

text \<open>
  The spacing of the doubles around a positive real \<open>v\<close>: 52 bits below its leading
  bit, and \<^verbatim>\<open>2 ** -1074\<close> throughout the subnormal range.
\<close>

definition ulp :: "real \<Rightarrow> real" where
  "ulp v = 2 powr (of_int (max \<lfloor>log 2 v\<rfloor> (- 1022)) - 52)"

text \<open>
  IEEE-754 rounding of an exact result to binary64, to nearest and ties to even: the
  nearest multiple of the spacing, an infinity once that reaches \<^verbatim>\<open>2 ** 1024\<close>, and
  zero for what is nearer to zero than to the least subnormal.
\<close>

definition round_binary64 :: "real \<Rightarrow> npfloat" where
  "round_binary64 x =
     (if x = 0 then Finite 0
      else let u = ulp \<bar>x\<bar>;
               w = of_int (rne (\<bar>x\<bar> / u)) * u
           in if 2 ^ 1024 \<le> w then (if 0 < x then PosInf else NegInf)
              else Finite (sgn x * w))"

text \<open>
  The float operations of lines 352 to 354, each the exact result rounded, with the
  IEEE rules for infinities and NaN. None of them raises: numpy's default error state
  only warns on overflow, on an invalid operation and on a division by zero.
\<close>

fun float_mul :: "npfloat \<Rightarrow> npfloat \<Rightarrow> npfloat" where
  "float_mul NaN y = NaN"
| "float_mul x NaN = NaN"
| "float_mul (Finite a) (Finite b) = round_binary64 (a * b)"
| "float_mul (Finite a) PosInf = (if a = 0 then NaN else if 0 < a then PosInf else NegInf)"
| "float_mul (Finite a) NegInf = (if a = 0 then NaN else if 0 < a then NegInf else PosInf)"
| "float_mul PosInf (Finite b) = (if b = 0 then NaN else if 0 < b then PosInf else NegInf)"
| "float_mul NegInf (Finite b) = (if b = 0 then NaN else if 0 < b then NegInf else PosInf)"
| "float_mul PosInf PosInf = PosInf"
| "float_mul PosInf NegInf = NegInf"
| "float_mul NegInf PosInf = NegInf"
| "float_mul NegInf NegInf = PosInf"

fun float_add :: "npfloat \<Rightarrow> npfloat \<Rightarrow> npfloat" where
  "float_add NaN y = NaN"
| "float_add x NaN = NaN"
| "float_add (Finite a) (Finite b) = round_binary64 (a + b)"
| "float_add PosInf NegInf = NaN"
| "float_add NegInf PosInf = NaN"
| "float_add PosInf y = PosInf"
| "float_add NegInf y = NegInf"
| "float_add x PosInf = PosInf"
| "float_add x NegInf = NegInf"

fun float_sqrt :: "npfloat \<Rightarrow> npfloat" where
  "float_sqrt (Finite a) = (if a < 0 then NaN else round_binary64 (sqrt a))"
| "float_sqrt PosInf = PosInf"
| "float_sqrt NegInf = NaN"
| "float_sqrt NaN = NaN"

fun float_div :: "npfloat \<Rightarrow> npfloat \<Rightarrow> npfloat" where
  "float_div NaN y = NaN"
| "float_div x NaN = NaN"
| "float_div (Finite a) (Finite b) =
     (if b = 0 then (if a = 0 then NaN else if 0 < a then PosInf else NegInf)
      else round_binary64 (a / b))"
| "float_div (Finite a) y = Finite 0"
| "float_div PosInf (Finite b) = (if 0 \<le> b then PosInf else NegInf)"
| "float_div NegInf (Finite b) = (if 0 \<le> b then NegInf else PosInf)"
| "float_div x y = NaN"

text \<open>The array of floats, in the layout of \<^verbatim>\<open>pixel_array\<close>.\<close>

type_synonym float_array = "(npfloat \<times> npfloat \<times> npfloat) list list"

text \<open>
  \<^verbatim>\<open>numpy.linalg.norm(a, 2, axis=0)\<close> of one column: numpy computes it as
  \<^verbatim>\<open>sqrt(add.reduce(a * a, axis=0))\<close>, the squares added from left to right.
\<close>

definition float_norm2 :: "npfloat \<times> npfloat \<times> npfloat \<Rightarrow> npfloat" where
  "float_norm2 v = (case v of (x, y, z) \<Rightarrow>
     float_sqrt (float_add (float_add (float_mul x x) (float_mul y y)) (float_mul z z)))"

text \<open>Lines 352 and 353: the computed norms, every one that compares equal to 0 set to 1.\<close>

definition normalized_float_l2 :: "float_array \<Rightarrow> npfloat list list" where
  "normalized_float_l2 a =
     (let l2 = map (map float_norm2) a
      in map (map (\<lambda>x. if x = Finite 0 then Finite 1 else x)) l2)"

text \<open>Line 354: every column divided by its entry of that array.\<close>

definition normalized_float :: "float_array \<Rightarrow> float_array" where
  "normalized_float a =
     map2 (map2 (\<lambda>v d. case v of (x, y, z) \<Rightarrow> (float_div x d, float_div y d, float_div z d)))
       a (normalized_float_l2 a)"

text \<open>A float that is finite: a real that binary64 represents.\<close>

definition finite_double :: "npfloat \<Rightarrow> bool" where
  "finite_double f = (case f of Finite r \<Rightarrow> round_binary64 r = Finite r | _ \<Rightarrow> False)"

subsection \<open>Projections\<close>

text \<open>The named tuple \<^verbatim>\<open>PDataFrame(pixels, k, ub, R, P)\<close>.\<close>

datatype PDataFrame = PDataFrame pixel_array real mat3 mat3 mat3

text \<open>\<^verbatim>\<open>HKLProjection.project\<close>, lines 83 to 98.\<close>

fun HKLProjection_project ::
  "int \<Rightarrow> PDataFrame \<Rightarrow> exn + (real list list \<times> real list list \<times> real list list)" where
  "HKLProjection_project index (PDataFrame pixels k UB R P) =
     (let ki = (1, 0, 0)
      in case linalg_inv (dot R UB) of
           Inl e \<Rightarrow> Inl e
         | Inr RUB_1 \<Rightarrow>
             let RUB_1P = dot RUB_1 P;
                 kf = normalized pixels;
                 hkl_f = tensordot RUB_1P kf;
                 hkl_i = dot_mv RUB_1 ki;
                 hkl = map (map (\<lambda>v. vsub v hkl_i)) hkl_f
             in Inr (unstack (map (map (vscale k)) hkl)))"

text \<open>
  \<^verbatim>\<open>QxQyQzProjection.project\<close>, lines 114 to 139. The name \<^verbatim>\<open>UB\<close> is assigned
  twice; the second \<open>let\<close> shadows the first, as the second assignment overwrites it.
\<close>

fun QxQyQzProjection_project ::
  "int \<Rightarrow> PDataFrame \<Rightarrow> exn + (real list list \<times> real list list \<times> real list list)" where
  "QxQyQzProjection_project index (PDataFrame pixels k uu R P) =
     (let UB = (((2 * pi, 0, 0),
                 (0, 0, 2 * pi),
                 (0, - 2 * pi, 0)) :: mat3);
          UB = (((2 * pi, 0, 0),
                 (0, 2 * pi, 0),
                 (0, 0, 2 * pi)) :: mat3);
          ki = (1, 0, 0)
      in case linalg_inv (dot R UB) of
           Inl e \<Rightarrow> Inl e
         | Inr RUB_1 \<Rightarrow>
             let RUB_1P = dot RUB_1 P;
                 kf = normalized pixels;
                 hkl_f = tensordot RUB_1P kf;
                 hkl_i = dot_mv RUB_1 ki;
                 hkl = map (map (\<lambda>v. vsub v hkl_i)) hkl_f
             in Inr (unstack (map (map (vscale k)) hkl)))"

subsection \<open>The HKL transform as the specification words it\<close>




subsection \<open>Kinematic graphs\<close>

text \<open>The supported diffractometers.\<close>

definition ZAXIS :: string where
  "ZAXIS = ''ZAXIS''"

definition SOLEIL_SIXS_MED1_2 :: string where
  "SOLEIL_SIXS_MED1_2 = ''SOLEIL SIXS MED1+2''"

text \<open>The named tuple \<^verbatim>\<open>Rotation(axis, value)\<close>.\<close>

datatype Rotation = Rotation vec3 real

text \<open>
  A \<^verbatim>\<open>networkx.DiGraph\<close>: the nodes in the order they were added, each with its
  \<^verbatim>\<open>transformation\<close> attribute if it has one, and the directed edges in the order
  they were added.
\<close>

record DiGraph =
  nodes :: "(string \<times> Rotation option) list"
  edges :: "(string \<times> string) list"

definition DiGraph_empty :: DiGraph where
  "DiGraph_empty = \<lparr>nodes = [], edges = []\<rparr>"

fun set_attribute ::
  "string \<Rightarrow> Rotation option \<Rightarrow> (string \<times> Rotation option) list \<Rightarrow> (string \<times> Rotation option) list" where
  "set_attribute n t [] = [(n, t)]"
| "set_attribute n t ((m, old) # ns) =
     (if m = n then (m, t) # ns else (m, old) # set_attribute n t ns)"

text \<open>\<^verbatim>\<open>graph.add_node(n, transformation=t)\<close>: a new node, or a new attribute of an old one.\<close>

definition add_node :: "DiGraph \<Rightarrow> string \<Rightarrow> Rotation \<Rightarrow> DiGraph" where
  "add_node g n t = g\<lparr>nodes := set_attribute n (Some t) (nodes g)\<rparr>"

text \<open>\<^verbatim>\<open>graph.add_edge(u, v)\<close>: nodes that are not in the graph yet are added without attribute.\<close>

definition touch_node :: "string \<Rightarrow> (string \<times> Rotation option) list \<Rightarrow> (string \<times> Rotation option) list" where
  "touch_node n ns = (if n \<in> set (map fst ns) then ns else ns @ [(n, None)])"

definition add_edge :: "DiGraph \<Rightarrow> string \<times> string \<Rightarrow> DiGraph" where
  "add_edge g e =
     \<lparr>nodes = touch_node (snd e) (touch_node (fst e) (nodes g)),
      edges = (if e \<in> set (edges g) then edges g else edges g @ [e])\<rparr>"

definition add_edges_from :: "DiGraph \<Rightarrow> (string \<times> string) list \<Rightarrow> DiGraph" where
  "add_edges_from g es = foldl add_edge g es"

definition successors :: "DiGraph \<Rightarrow> string \<Rightarrow> string list" where
  "successors g u = map snd (filter (\<lambda>e. fst e = u) (edges g))"

text \<open>
  \<^verbatim>\<open>networkx.dijkstra_path(graph, source, target)\<close> on a graph without edge weights
  (every edge weighs 1): a path with the fewest edges. The walks from the source are
  kept newest node first and grown one edge at a time; the first walk that ends at the
  target is a shortest path. A shortest path has fewer edges than the graph has nodes,
  which bounds the rounds.
\<close>

definition ends_at :: "string \<Rightarrow> string list \<Rightarrow> bool" where
  "ends_at t w = (case w of [] \<Rightarrow> False | v # uu \<Rightarrow> v = t)"

definition grow :: "DiGraph \<Rightarrow> string list list \<Rightarrow> string list list" where
  "grow g ws =
     concat (map (\<lambda>w. case w of [] \<Rightarrow> [] | v # uu \<Rightarrow> map (\<lambda>x. x # w) (successors g v)) ws)"

fun shortest_walk :: "nat \<Rightarrow> DiGraph \<Rightarrow> string \<Rightarrow> string list list \<Rightarrow> string list option" where
  "shortest_walk 0 g t ws = None"
| "shortest_walk (Suc n) g t ws =
     (case find (ends_at t) ws of
        Some w \<Rightarrow> Some (rev w)
      | None \<Rightarrow> shortest_walk n g t (grow g ws))"

definition dijkstra_path :: "DiGraph \<Rightarrow> string \<Rightarrow> string \<Rightarrow> exn + string list" where
  "dijkstra_path g s t =
     (if s \<notin> set (map fst (nodes g)) then Inl (Exn NodeNotFound [s])
      else case shortest_walk (length (nodes g)) g t [[s]] of
             None \<Rightarrow> Inl (Exn NetworkXNoPath [t])
           | Some p \<Rightarrow> Inr p)"

text \<open>The named tuple \<^verbatim>\<open>Axes(sample, detector, graph)\<close>.\<close>

datatype Axes = Axes "string list" "string list" DiGraph

text \<open>\<^verbatim>\<open>get_axes(name)\<close>, lines 174 to 212.\<close>

definition get_axes :: "string \<Rightarrow> exn + Axes" where
  "get_axes name =
     (let graph = DiGraph_empty
      in if name = ZAXIS then
           let graph = add_node graph ''mu'' (Rotation (0, 0, 1) 0);
               graph = add_node graph ''omega'' (Rotation (0, - 1, 0) 0);
               graph = add_node graph ''delta'' (Rotation (0, - 1, 0) 0);
               graph = add_node graph ''gamma'' (Rotation (0, 0, 1) 0);
               graph = add_edges_from graph
                         [(''mu'', ''omega''), (''mu'', ''delta''), (''delta'', ''gamma'')]
           in case dijkstra_path graph ''mu'' ''omega'' of
                Inl e \<Rightarrow> Inl e
              | Inr sample \<Rightarrow>
                  (case dijkstra_path graph ''mu'' ''gamma'' of
                     Inl e \<Rightarrow> Inl e
                   | Inr detector \<Rightarrow> Inr (Axes sample detector graph))
         else if name = SOLEIL_SIXS_MED1_2 then
           let graph = add_node graph ''pitch'' (Rotation (0, - 1, 0) 0);
               graph = add_node graph ''mu'' (Rotation (0, 0, 1) 0);
               graph = add_node graph ''gamma'' (Rotation (0, 0, 1) 0);
               graph = add_node graph ''delta'' (Rotation (0, - 1, 0) 0);
               graph = add_edges_from graph
                         [(''pitch'', ''mu''), (''pitch'', ''gamma''), (''gamma'', ''delta'')]
           in case dijkstra_path graph ''pitch'' ''mu'' of
                Inl e \<Rightarrow> Inl e
              | Inr sample \<Rightarrow>
                  (case dijkstra_path graph ''pitch'' ''delta'' of
                     Inl e \<Rightarrow> Inl e
                   | Inr detector \<Rightarrow> Inr (Axes sample detector graph))
         else Inl (Exn NotImplementedError [''not yet supported diffractometer type:'' @ name]))"

subsection \<open>Loading a mask matrix\<close>

text \<open>Python's \<^verbatim>\<open>str.rfind\<close> for one character: the last index of it, or -1.\<close>

definition rfind :: "char \<Rightarrow> string \<Rightarrow> int" where
  "rfind c s =
     (case find (\<lambda>i. s ! i = c) (rev [0..<length s]) of
        None \<Rightarrow> - 1
      | Some i \<Rightarrow> int i)"

text \<open>
  \<^verbatim>\<open>os.path.splitext\<close> on POSIX: the extension starts at the last dot of the last
  path component, unless only dots stand before it in that component.
\<close>

definition splitext :: "string \<Rightarrow> string \<times> string" where
  "splitext p =
     (let sepIndex = rfind CHR ''/'' p;
          dotIndex = rfind CHR ''.'' p
      in if sepIndex < dotIndex \<and>
            list_ex (\<lambda>i. p ! i \<noteq> CHR ''.'') [nat (sepIndex + 1)..<nat dotIndex]
         then (take (nat dotIndex) p, drop (nat dotIndex) p)
         else (p, []))"

text \<open>
  \<^verbatim>\<open>load_matrix(filename)\<close>, lines 556 to 568. The file system and numpy's two
  readers are parameters: \<open>exists\<close> is \<^verbatim>\<open>os.path.exists\<close>, \<open>loadtxt\<close> and \<open>load\<close> are
  \<^verbatim>\<open>numpy.loadtxt\<close> and \<^verbatim>\<open>numpy.load\<close>, which return the numbers of the file or raise.
  \<^verbatim>\<open>numpy.array(..., dtype=numpy.bool)\<close> turns every nonzero entry into True.
\<close>

definition load_matrix ::
  "(string \<Rightarrow> bool) \<Rightarrow> (string \<Rightarrow> exn + real list list) \<Rightarrow> (string \<Rightarrow> exn + real list list) \<Rightarrow>
   string option \<Rightarrow> exn + bool list list option" where
  "load_matrix exists loadtxt load filename =
     (case filename of
        None \<Rightarrow> Inr None
      | Some fname \<Rightarrow>
          if exists fname then
            let ext = snd (splitext fname)
            in if ext = ''.txt'' then
                 (case loadtxt fname of
                    Inl e \<Rightarrow> Inl e
                  | Inr m \<Rightarrow> Inr (Some (map (map (\<lambda>x. x \<noteq> 0)) m)))
               else if ext = ''.npy'' then
                 (case load fname of
                    Inl e \<Rightarrow> Inl e
                  | Inr m \<Rightarrow> Inr (Some (map (map (\<lambda>x. x \<noteq> 0)) m)))
               else Inl (Exn ValueError
                      [''unknown extension '' @ ext @ '', unable to load matrix!'' @ [CHR 0x0A]])
          else Inl (Exn IOError
                 [''filename: '' @ fname @ '' does not exist. Can not load matrix'']))"

subsection \<open>Configuration\<close>

text \<open>
  A mask selection: \<^verbatim>\<open>slice(None)\<close>, or the indices \<^verbatim>\<open>util.parse_multi_range\<close> returned.
\<close>

datatype mask_selection = SliceAll | Indices "int list"

text \<open>
  The attributes \<^verbatim>\<open>SIXS.parse_config\<close> sets on \<^verbatim>\<open>self.config\<close>, after those of the
  base class (\<open>base_config\<close>). Floats are values of a type \<open>'f\<close> the parser gives; an
  empty \<^verbatim>\<open>pr\<close> string is falsy and is kept as \<open>None\<close>.
\<close>

record ('b, 'f) sixs_config =
  base_config :: 'b
  xmask :: mask_selection
  ymask :: mask_selection
  nexusfile :: string
  pr :: "(int \<times> int) option"
  sdd :: 'f
  centralpixel :: "int \<times> int"
  maskmatrix :: "string option"
  detrot :: "'f option"

text \<open>Sequencing of steps that can raise: the first exception ends the run.\<close>

definition bind_exn :: "exn + 'a \<Rightarrow> ('a \<Rightarrow> exn + 'b) \<Rightarrow> exn + 'b" where
  "bind_exn m f = (case m of Inl e \<Rightarrow> Inl e | Inr x \<Rightarrow> f x)"

text \<open>\<^verbatim>\<open>config.pop(key)\<close> of a required key.\<close>

definition pop_required :: "(string \<rightharpoonup> string) \<Rightarrow> string \<Rightarrow> exn + string" where
  "pop_required config key =
     (case config key of None \<Rightarrow> Inl (Exn KeyError [key]) | Some v \<Rightarrow> Inr v)"

text \<open>
  Lines 413 and 414: a \<^verbatim>\<open>pr\<close> that is set and not empty is parsed as a pair of
  integers.
\<close>

definition parse_pr :: "(string \<Rightarrow> exn + int \<times> int) \<Rightarrow> string option \<Rightarrow> exn + (int \<times> int) option" where
  "parse_pr parse_tuple pr_raw =
     (case pr_raw of
        None \<Rightarrow> Inr None
      | Some s \<Rightarrow>
          if s = [] then Inr None
          else bind_exn (parse_tuple s) (\<lambda>t. Inr (Some t)))"

text \<open>
  Lines 419 to 423: a \<^verbatim>\<open>detrot\<close> that is set is converted with \<^verbatim>\<open>float\<close>; a
  \<^verbatim>\<open>ValueError\<close> of the conversion is caught and leaves \<^verbatim>\<open>None\<close>, any other
  exception propagates.
\<close>

definition parse_detrot :: "(string \<Rightarrow> exn + 'f) \<Rightarrow> string option \<Rightarrow> exn + 'f option" where
  "parse_detrot float detrot_raw =
     (case detrot_raw of
        None \<Rightarrow> Inr None
      | Some s \<Rightarrow>
          (case float s of
             Inr v \<Rightarrow> Inr (Some v)
           | Inl (Exn c args) \<Rightarrow>
               if c = ValueError then Inr None else Inl (Exn c args)))"

text \<open>
  \<^verbatim>\<open>SIXS.parse_config\<close>, lines 403 to 423. The configuration is a dictionary of
  strings; the result is the parsed configuration and what is left of the dictionary.
  Parameters, none of them in this file: \<open>super_parse_config\<close> is the base class's
  \<^verbatim>\<open>parse_config\<close>, \<open>parse_multi_range\<close> and \<open>parse_tuple\<close> are the functions of
  \<^verbatim>\<open>util\<close> (the latter called with \<^verbatim>\<open>length=2, type=int\<close>), and \<open>float\<close> is Python's
  \<^verbatim>\<open>float\<close> on a string.
\<close>

definition parse_config ::
  "((string \<rightharpoonup> string) \<Rightarrow> exn + 'b \<times> (string \<rightharpoonup> string)) \<Rightarrow>
   (string option \<Rightarrow> exn + int list option) \<Rightarrow>
   (string \<Rightarrow> exn + int \<times> int) \<Rightarrow>
   (string \<Rightarrow> exn + 'f) \<Rightarrow>
   (string \<rightharpoonup> string) \<Rightarrow> exn + ('b, 'f) sixs_config \<times> (string \<rightharpoonup> string)" where
  "parse_config super_parse_config parse_multi_range parse_tuple float config =
     bind_exn (super_parse_config config) (\<lambda>(base, config).
     bind_exn (parse_multi_range (config ''xmask'')) (\<lambda>xm.
     bind_exn (parse_multi_range ((config(''xmask'' := None)) ''ymask'')) (\<lambda>ym.
     bind_exn (pop_required (config(''xmask'' := None, ''ymask'' := None)) ''nexusfile'') (\<lambda>nf.
       (let config = config(''xmask'' := None, ''ymask'' := None, ''nexusfile'' := None);
            pr_raw = config ''pr'';
            config = config(''pr'' := None);
            xm = (case xm of None \<Rightarrow> SliceAll | Some is \<Rightarrow> Indices is);
            ym = (case ym of None \<Rightarrow> SliceAll | Some is \<Rightarrow> Indices is)
        in
     bind_exn (parse_pr parse_tuple pr_raw) (\<lambda>prv.
     bind_exn (pop_required config ''sdd'') (\<lambda>sdd_raw.
     bind_exn (float sdd_raw) (\<lambda>sddv.
     bind_exn (pop_required (config(''sdd'' := None)) ''centralpixel'') (\<lambda>cp_raw.
     bind_exn (parse_tuple cp_raw) (\<lambda>cp.
       (let config = config(''sdd'' := None, ''centralpixel'' := None);
            mm = config ''maskmatrix'';
            config = config(''maskmatrix'' := None);
            detrot_raw = config ''detrot'';
            config = config(''detrot'' := None)
        in
     bind_exn (parse_detrot float detrot_raw) (\<lambda>dr.
       Inr (\<lparr>base_config = base, xmask = xm, ymask = ym, nexusfile = nf, pr = prv,
             sdd = sddv, centralpixel = cp, maskmatrix = mm, detrot = dr\<rparr>,
            config)))))))))))))"

subsection \<open>Jobs and frame processing\<close>

text \<open>\<^verbatim>\<open>backend.Job(scan, firstpoint, lastpoint, weight)\<close>, as this file builds and reads it.\<close>

record Job =
  scan :: int
  firstpoint :: int
  lastpoint :: int
  weight :: int

text \<open>
  The two debugging attributes of the class \<^verbatim>\<open>SIXS\<close> (lines 360 and 361), both
  \<^verbatim>\<open>None\<close> in the class body. No line of this file assigns either of them.
\<close>

record SIXS =
  dbg_scanno :: "int option"
  dbg_pointno :: "int option"

definition SIXS_class :: SIXS where
  "SIXS_class = \<lparr>dbg_scanno = None, dbg_pointno = None\<rparr>"

text \<open>\<^verbatim>\<open>str\<close> of an integer, and \<^verbatim>\<open>'{0}'.format\<close> of an integer or \<^verbatim>\<open>None\<close>.\<close>

fun str_nat :: "nat \<Rightarrow> string" where
  "str_nat n =
     (if n < 10 then [''0123456789'' ! n]
      else str_nat (n div 10) @ [''0123456789'' ! (n mod 10)])"

definition str_int :: "int \<Rightarrow> string" where
  "str_int i = (if i < 0 then ''-'' @ str_nat (nat (- i)) else str_nat (nat i))"

definition format_field :: "int option \<Rightarrow> string" where
  "format_field v = (case v of None \<Rightarrow> ''None'' | Some i \<Rightarrow> str_int i)"

text \<open>\<^verbatim>\<open>str.zfill(width)\<close>: zeros on the left, after a sign.\<close>

definition zfill :: "nat \<Rightarrow> string \<Rightarrow> string" where
  "zfill width s =
     (case s of
        c # rest \<Rightarrow>
          if c = CHR ''-'' \<or> c = CHR ''+''
          then c # replicate (width - length s) CHR ''0'' @ rest
          else replicate (width - length s) CHR ''0'' @ s
      | [] \<Rightarrow> replicate width CHR ''0'')"

text \<open>
  \<^verbatim>\<open>SIXS.get_filename\<close>, lines 433 to 437. \<open>nexusfile_format\<close> is the configured
  template as a function of its \<^verbatim>\<open>scanno\<close> field, \<open>exists\<close> is \<^verbatim>\<open>os.path.exists\<close>.
\<close>

definition get_filename :: "(string \<Rightarrow> bool) \<Rightarrow> (string \<Rightarrow> string) \<Rightarrow> int \<Rightarrow> exn + string" where
  "get_filename exists nexusfile_format scanno =
     (let filename = nexusfile_format (zfill 5 (str_int scanno))
      in if \<not> exists filename
         then Inl (Exn ConfigError [''nexus filename does not exist: '' @ filename])
         else Inr filename)"

text \<open>
  The inner loop of \<^verbatim>\<open>process_job\<close> (lines 395 and 396): one result is yielded per
  point, and the first exception ends the loop.
\<close>

fun process_points :: "(int \<Rightarrow> exn + 'o) \<Rightarrow> int list \<Rightarrow> 'o list \<times> exn option" where
  "process_points f [] = ([], None)"
| "process_points f (index # rest) =
     (case f index of
        Inl e \<Rightarrow> ([], Some e)
      | Inr out \<Rightarrow> (case process_points f rest of (outs, r) \<Rightarrow> (out # outs, r)))"

text \<open>
  The outer loop (lines 393 to 396) over the data frames the generator
  \<^verbatim>\<open>dataframes\<close> yields; \<open>ending\<close> is the exception that generator raises after its
  last frame, if it raises one.
\<close>

fun process_dataframes ::
  "('d \<Rightarrow> exn + 'p) \<Rightarrow> (int \<Rightarrow> 'd \<Rightarrow> 'p \<Rightarrow> exn + 'o) \<Rightarrow> Job \<Rightarrow> 'd list \<Rightarrow> exn option \<Rightarrow>
   'o list \<times> exn option" where
  "process_dataframes get_pixels process_image job [] ending = ([], ending)"
| "process_dataframes get_pixels process_image job (dataframe # rest) ending =
     (case get_pixels dataframe of
        Inl e \<Rightarrow> ([], Some e)
      | Inr pixels \<Rightarrow>
          (case process_points (\<lambda>index. process_image index dataframe pixels)
                  [firstpoint job..lastpoint job] of
             (outs, Some e) \<Rightarrow> (outs, Some e)
           | (outs, None) \<Rightarrow>
               (case process_dataframes get_pixels process_image job rest ending of
                  (outs', r) \<Rightarrow> (outs @ outs', r))))"

text \<open>The message the handler of line 399 adds, formatted from the two debugging attributes.\<close>

definition error_context :: "SIXS \<Rightarrow> string" where
  "error_context self =
     '', An error occured for scan '' @ format_field (dbg_scanno self) @
     '' at point '' @ format_field (dbg_pointno self) @
     ''. See above for more information''"

text \<open>
  \<^verbatim>\<open>SIXS.process_job\<close>, lines 388 to 401: what the generator yields and the exception
  that ends it, if one does. Parameters: \<open>super_process_job\<close> is the base class's
  \<^verbatim>\<open>process_job\<close> and \<open>addmessage\<close> is \<^verbatim>\<open>errors.addmessage\<close>, neither in this file;
  \<open>open_file\<close> is \<^verbatim>\<open>tables.open_file\<close>; \<open>dataframes\<close> gives the frames of an open
  scan and the exception that ends them; \<open>get_pixels\<close> and \<open>process_image\<close> are the
  methods of the subclass, which may raise and assign neither debugging attribute.
  Opening the file is outside the \<^verbatim>\<open>try\<close>; the loops are inside it.
\<close>

definition process_job ::
  "(SIXS \<Rightarrow> Job \<Rightarrow> exn + SIXS) \<Rightarrow> (string \<Rightarrow> bool) \<Rightarrow> (string \<Rightarrow> string) \<Rightarrow>
   (string \<Rightarrow> exn + 'h) \<Rightarrow> ('h \<Rightarrow> 'd list \<times> exn option) \<Rightarrow>
   ('d \<Rightarrow> exn + 'p) \<Rightarrow> (int \<Rightarrow> 'd \<Rightarrow> 'p \<Rightarrow> exn + 'o) \<Rightarrow>
   (string list \<Rightarrow> string \<Rightarrow> string list) \<Rightarrow>
   SIXS \<Rightarrow> Job \<Rightarrow> 'o list \<times> exn option" where
  "process_job super_process_job exists nexusfile_format open_file dataframes get_pixels process_image
     addmessage self job =
     (case super_process_job self job of
        Inl e \<Rightarrow> ([], Some e)
      | Inr self \<Rightarrow>
          (case get_filename exists nexusfile_format (scan job) of
             Inl e \<Rightarrow> ([], Some e)
           | Inr filename \<Rightarrow>
               (case open_file filename of
                  Inl e \<Rightarrow> ([], Some e)
                | Inr h \<Rightarrow>
                    (case dataframes h of
                       (frames, ending) \<Rightarrow>
                         (case process_dataframes get_pixels process_image job frames ending of
                            (outs, None) \<Rightarrow> (outs, None)
                          | (outs, Some (Exn c args)) \<Rightarrow>
                              (outs, Some (Exn c (addmessage args (error_context self)))))))))"

subsection \<open>Job generation\<close>

text \<open>
  Rounding a natural number to 53 significant bits, to nearest and ties to even: the
  rounding of an IEEE 754 binary64 operation whose exact result is that number times a
  power of two, as long as the result neither overflows nor is subnormal.
\<close>

definition round_to_53 :: "int \<Rightarrow> int" where
  "round_to_53 p =
     (let e = bitlen p - 53
      in if e \<le> 0 then p
         else let q = p div 2 ^ nat e;
                  r = p mod 2 ^ nat e;
                  half = 2 ^ nat (e - 1)
              in if half < r \<or> (r = half \<and> odd q) then (q + 1) * 2 ^ nat e
                 else q * 2 ^ nat e)"

text \<open>
  The value of the float \<^verbatim>\<open>target_weight * 1.4\<close> of line 375 while it is finite, as a
  real number. The integer is converted to a double (rounded when it has more than 53
  bits) and multiplied by the double nearest 1.4, which is 6305039478318694 / 2^52
  (hexadecimal 0x3FF6666666666666); the product is rounded once.
\<close>

definition times_1_4 :: "int \<Rightarrow> real" where
  "times_1_4 t =
     real_of_int (sgn t * round_to_53 (round_to_53 \<bar>t\<bar> * 6305039478318694)) / 2 ^ 52"

text \<open>
  The expression \<^verbatim>\<open>target_weight * 1.4\<close> itself. Converting the integer raises
  \<^verbatim>\<open>OverflowError\<close> when it rounds to \<open>2^1024\<close> or more, beyond the largest double;
  a product that rounds to \<open>2^1024\<close> or more is an infinity, without an exception.
\<close>

definition target_weight_times_1_4 :: "int \<Rightarrow> exn + npfloat" where
  "target_weight_times_1_4 t =
     (if 2 ^ 1024 \<le> round_to_53 \<bar>t\<bar>
      then Inl (Exn OverflowError [''int too large to convert to float''])
      else if 2 ^ 1024 \<le> \<bar>times_1_4 t\<bar> then Inr (if 0 < t then PosInf else NegInf)
      else Inr (Finite (times_1_4 t)))"

text \<open>
  Python's \<^verbatim>\<open>n > x\<close> for an integer \<open>n\<close> and a float \<open>x\<close>: the two are compared
  exactly, and nothing is greater than NaN.
\<close>

definition int_gt_float :: "int \<Rightarrow> npfloat \<Rightarrow> bool" where
  "int_gt_float n x =
     (case x of Finite r \<Rightarrow> r < real_of_int n | PosInf \<Rightarrow> False | NegInf \<Rightarrow> True
      | NaN \<Rightarrow> False)"

text \<open>
  Modelled from the spec: \<^verbatim>\<open>util.chunk_slicer(count, chunksize)\<close> is not among the
  sources. The specification's job splitter emits consecutive chunks of \<open>chunksize\<close>
  points and then one final chunk with the remainder, which has between 1 and
  \<open>chunksize\<close> points: a full chunk is cut off as long as more than \<open>chunksize\<close> points
  remain. A chunk is the pair of its first index and the index after its last, as a
  \<^verbatim>\<open>slice\<close> is. The specification says nothing of a \<open>chunksize\<close> below 1; the model
  then gives one chunk.
\<close>

function chunks_from :: "int \<Rightarrow> int \<Rightarrow> int \<Rightarrow> (int \<times> int) list" where
  "chunks_from pos count chunksize =
     (if 1 \<le> chunksize \<and> chunksize < count - pos
      then (pos, pos + chunksize) # chunks_from (pos + chunksize) count chunksize
      else [(pos, count)])"
  by pat_completeness auto
termination
  by (relation "measure (\<lambda>(pos, count, chunksize). nat (count - pos))") auto

declare chunks_from.simps [simp del]

definition chunk_slicer :: "int \<Rightarrow> int \<Rightarrow> (int \<times> int) list" where
  "chunk_slicer count chunksize = chunks_from 0 count chunksize"

text \<open>
  The body of the loop of \<^verbatim>\<open>SIXS.generate_jobs\<close>, lines 375 to 386: the jobs of one
  scan with \<open>pointcount\<close> points that start at \<open>start\<close>, or the exception the
  comparison of line 375 raises.
\<close>

definition scan_jobs :: "int \<Rightarrow> int \<Rightarrow> int \<Rightarrow> int \<Rightarrow> exn + Job list" where
  "scan_jobs scanno start pointcount target_weight =
     (case target_weight_times_1_4 target_weight of
        Inl e \<Rightarrow> Inl e
      | Inr x \<Rightarrow>
          Inr (if int_gt_float pointcount x
               then map (\<lambda>(s_start, s_stop).
                           \<lparr>scan = scanno, firstpoint = start + s_start,
                            lastpoint = start + s_stop - 1, weight = s_stop - s_start\<rparr>)
                        (chunk_slicer pointcount target_weight)
               else [\<lparr>scan = scanno, firstpoint = start,
                      lastpoint = start + pointcount - 1, weight = pointcount\<rparr>]))"

text \<open>
  \<^verbatim>\<open>SIXS.generate_jobs\<close>, lines 363 to 386, on the scan numbers the command was parsed
  to: the jobs the generator yields and the exception that ends it, if one does.
  \<open>target_weight\<close> reads the integer attribute of that name, which the base class
  sets, and \<open>get_pointcount\<close> is the method of the subclass, which opens the scan file
  and may raise. The jobs of a scan are yielded after the comparison of line 375, so
  an exception there ends the generator before any job of that scan.
\<close>

fun generate_jobs ::
  "('b \<Rightarrow> int) \<Rightarrow> (int \<Rightarrow> exn + int) \<Rightarrow> ('b, 'f) sixs_config \<Rightarrow> int list \<Rightarrow>
   Job list \<times> exn option" where
  "generate_jobs target_weight get_pointcount config [] = ([], None)"
| "generate_jobs target_weight get_pointcount config (scanno # scans) =
     (case (case pr config of
              Some (pr0, pr1) \<Rightarrow> Inr (pr1 - pr0 + 1, pr0)
            | None \<Rightarrow> bind_exn (get_pointcount scanno) (\<lambda>n. Inr (n, 0))) of
        Inl e \<Rightarrow> ([], Some e)
      | Inr (pointcount, start) \<Rightarrow>
          (case scan_jobs scanno start pointcount (target_weight (base_config config)) of
             Inl e \<Rightarrow> ([], Some e)
           | Inr first_jobs \<Rightarrow>
               (case generate_jobs target_weight get_pointcount config scans of
                  (jobs, r) \<Rightarrow> (first_jobs @ jobs, r))))"

subsection \<open>The job splitter as the specification words it\<close>

text \<open>One job that covers all \<open>n\<close> points of the scan, with weight \<open>n\<close>.\<close>

definition one_job :: "int \<Rightarrow> int \<Rightarrow> int \<Rightarrow> Job list" where
  "one_job scanno start n =
     [\<lparr>scan = scanno, firstpoint = start, lastpoint = start + n - 1, weight = n\<rparr>]"

text \<open>
  Consecutive jobs of \<open>t\<close> points and weight \<open>t\<close>, then one final job with the points
  that remain: with \<open>q = (n - 1) div t\<close> full jobs the remainder \<open>n - q * t\<close> is between
  1 and \<open>t\<close>.
\<close>

definition split_jobs :: "int \<Rightarrow> int \<Rightarrow> int \<Rightarrow> int \<Rightarrow> Job list" where
  "split_jobs scanno start n t =
     (let q = (n - 1) div t
      in map (\<lambda>i. \<lparr>scan = scanno, firstpoint = start + int i * t,
                    lastpoint = start + int i * t + t - 1, weight = t\<rparr>) [0..<nat q] @
         [\<lparr>scan = scanno, firstpoint = start + q * t, lastpoint = start + n - 1,
           weight = n - q * t\<rparr>])"

section \<open>Properties\<close>

subsection \<open>Rotation matrices\<close>

lemma M_zero_angle: "M 0 u = eye3"
  by (cases u) (simp add: M_def eye3_def)

lemma M_orthogonal:
  assumes "norm2 u = 1"
  shows "dot (M theta u) (transpose3 (M theta u)) = eye3"
proof -
  obtain x y z where u: "u = (x, y, z)" by (cases u) auto
  have n: "x\<^sup>2 + y\<^sup>2 + z\<^sup>2 = 1" using assms by (simp add: u norm2_def)
  have cs: "(cos theta)\<^sup>2 + (sin theta)\<^sup>2 = 1" by simp
  show ?thesis
    unfolding u M_def dot_def transpose3_def eye3_def vdot_def Let_def
    apply (simp only: prod.case prod.inject)
    apply (intro conjI)
    using n cs apply algebra+
    done
qed

text \<open>
  Claim C7. The rotation-matrix constructor \<open>M\<close> at angle 0 returns the 3x3 identity
  for every axis \<open>u\<close> (unit or not), and for every angle \<open>theta\<close> and every axis of
  Euclidean length 1 the matrix \<open>M theta u\<close> is orthogonal: multiplied by its transpose
  it gives the identity. The arithmetic is that of the real numbers.
\<close>

theorem M_identity_and_orthogonal:
  "M 0 u = eye3 \<and>
   (norm2 u = 1 \<longrightarrow> dot (M theta u) (transpose3 (M theta u)) = eye3)"
  using M_zero_angle M_orthogonal by blast

theorem M_identity_and_orthogonal_witness:
  "norm2 (0, 0, 1) = 1 \<and> M 0 (0, 0, 1) = eye3 \<and>
   dot (M (pi / 2) (0, 0, 1)) (transpose3 (M (pi / 2) (0, 0, 1))) = eye3 \<and>
   M (pi / 2) (0, 0, 1) = ((0, - 1, 0), (1, 0, 0), (0, 0, 1))"
proof -
  have n: "norm2 (0, 0, 1) = 1" by (simp add: norm2_def)
  have m: "M (pi / 2) (0, 0, 1) = ((0, - 1, 0), (1, 0, 0), (0, 0, 1))"
    by (simp add: M_def)
  from M_identity_and_orthogonal [of "(0, 0, 1)" "pi / 2"] n m show ?thesis by simp
qed

subsection \<open>Normalisation\<close>

lemma map2_same_map: "map2 f xs (map g xs) = map (\<lambda>x. f x (g x)) xs"
  by (induction xs) auto


subsection \<open>Normalisation on binary64 floats\<close>

text \<open>Rounding: how far the rounded value can be from the exact one.\<close>

lemma rne_bounds: "y - 1 / 2 \<le> of_int (rne y)" "of_int (rne y) \<le> y + 1 / 2"
  unfolding rne_def Let_def by (auto; linarith)+

lemma rne_nonneg: "0 \<le> y \<Longrightarrow> 0 \<le> rne y"
proof -
  assume "0 \<le> y"
  then have "0 \<le> \<lfloor>y\<rfloor>" by simp
  then show ?thesis unfolding rne_def Let_def by auto
qed

lemma ulp_pos: "0 < ulp v"
  by (simp add: ulp_def)

lemma ulp_ge: "2 powr (- 1074) \<le> ulp v"
  unfolding ulp_def by (subst powr_le_cancel_iff) simp_all

lemma ulp_normal:
  assumes "0 < v" and "- 1022 \<le> \<lfloor>log 2 v\<rfloor>"
  shows "ulp v * 2 powr 52 \<le> v"
proof -
  have "max \<lfloor>log 2 v\<rfloor> (- 1022) = \<lfloor>log 2 v\<rfloor>"
    using assms(2) by (rule max_absorb1)
  then have "ulp v = 2 powr (of_int \<lfloor>log 2 v\<rfloor> - 52)"
    by (simp only: ulp_def)
  then have "ulp v * 2 powr 52 = 2 powr (of_int \<lfloor>log 2 v\<rfloor>)"
    by (simp only: powr_add [symmetric]) simp
  also have "\<dots> \<le> 2 powr (log 2 v)"
    by (subst powr_le_cancel_iff) simp_all
  also have "\<dots> = v" using assms(1) by simp
  finally show ?thesis .
qed

lemma ulp_subnormal:
  assumes "\<lfloor>log 2 v\<rfloor> < - 1022"
  shows "ulp v = 2 powr (- 1074)"
proof -
  have "max \<lfloor>log 2 v\<rfloor> (- 1022) = - 1022"
    using assms by (intro max_absorb2) linarith
  then show ?thesis by (simp only: ulp_def) simp
qed

lemma ulp_le:
  assumes "0 < v" and "v \<le> 2 powr of_int n" and "- 1022 \<le> n"
  shows "ulp v \<le> 2 powr (of_int n - 52)"
proof -
  have "log 2 v \<le> log 2 (2 powr of_int n)"
    using assms(1,2) by (subst log_le_cancel_iff) simp_all
  then have "log 2 v \<le> of_int n" by (simp only: log_powr_cancel)
  then have "\<lfloor>log 2 v\<rfloor> \<le> n" by (simp add: floor_le_iff)
  then have "max \<lfloor>log 2 v\<rfloor> (- 1022) \<le> n" using assms(3) by simp
  then have "real_of_int (max \<lfloor>log 2 v\<rfloor> (- 1022)) - 52 \<le> of_int n - 52"
    by linarith
  then show ?thesis unfolding ulp_def by (subst powr_le_cancel_iff) simp_all
qed

text \<open>The rounded magnitude of a positive real.\<close>

lemma round_binary64_pos:
  assumes "0 < v"
  shows "round_binary64 v =
     (if 2 ^ 1024 \<le> of_int (rne (v / ulp v)) * ulp v then PosInf
      else Finite (of_int (rne (v / ulp v)) * ulp v))"
  using assms by (simp add: round_binary64_def Let_def del: power_numeral)

lemma round_binary64_nonneg:
  assumes "0 \<le> v"
  shows "round_binary64 v = PosInf \<or> (\<exists>w\<ge>0. round_binary64 v = Finite w)"
proof (cases "v = 0")
  case True
  then show ?thesis by (simp add: round_binary64_def)
next
  case False
  then have v: "0 < v" using assms by simp
  have "0 \<le> v / ulp v" using v ulp_pos [of v] by simp
  then have "0 \<le> rne (v / ulp v)" by (rule rne_nonneg)
  then have "0 \<le> real_of_int (rne (v / ulp v)) * ulp v"
    using ulp_pos [of v] by simp
  then show ?thesis unfolding round_binary64_pos [OF v] by auto
qed

lemma round_binary64_lower:
  assumes "0 \<le> v" and "round_binary64 v = Finite w"
  shows "v \<le> 2 * w \<or> v \<le> 2 powr (- 1075)"
proof (cases "v = 0")
  case True
  then show ?thesis using assms by (simp add: round_binary64_def)
next
  case False
  then have v: "0 < v" using assms by simp
  define u where "u = ulp v"
  define k where "k = rne (v / u)"
  have u: "0 < u" by (simp add: u_def ulp_pos)
  have w: "w = of_int k * u"
    using assms(2) unfolding round_binary64_pos [OF v] k_def u_def
    by (simp split: if_splits del: power_numeral)
  have kb: "v / u - 1 / 2 \<le> of_int k" unfolding k_def by (rule rne_bounds)
  show ?thesis
  proof (cases "1 \<le> k")
    case True
    then have k1: "1 \<le> real_of_int k" by simp
    have "v / u \<le> 2 * of_int k" using kb k1 by linarith
    then have "v \<le> 2 * of_int k * u" using u by (simp add: field_simps)
    then show ?thesis using w by simp
  next
    case False
    then have "real_of_int k \<le> 0" by simp
    then have "v / u \<le> 1 / 2" using kb by linarith
    then have vu: "v \<le> u / 2" using u by (simp add: field_simps)
    have "\<lfloor>log 2 v\<rfloor> < - 1022"
    proof (rule ccontr)
      assume "\<not> \<lfloor>log 2 v\<rfloor> < - 1022"
      then have "u * 2 powr 52 \<le> v" unfolding u_def using v by (intro ulp_normal) simp_all
      moreover have "(1::real) \<le> 2 powr 52" by (rule ge_one_powr_ge_zero) simp_all
      then have "u \<le> u * 2 powr 52" using u by simp
      ultimately show False using vu u by linarith
    qed
    then have "u = 2 powr (- 1074)" unfolding u_def by (rule ulp_subnormal)
    moreover have "(2::real) powr (- 1074) = 2 * 2 powr (- 1075)"
    proof -
      have "(2::real) powr (- 1074) = 2 powr (1 + (- 1075))" by simp
      also have "\<dots> = 2 powr 1 * 2 powr (- 1075)" by (rule powr_add)
      finally show ?thesis by simp
    qed
    ultimately show ?thesis using vu by simp
  qed
qed

lemma round_binary64_min:
  assumes "0 \<le> v" and "round_binary64 v = Finite w"
  shows "w = 0 \<or> 2 powr (- 1074) \<le> w"
proof (cases "v = 0")
  case True
  then show ?thesis using assms by (simp add: round_binary64_def)
next
  case False
  then have v: "0 < v" using assms by simp
  define u where "u = ulp v"
  define k where "k = rne (v / u)"
  have u: "0 < u" by (simp add: u_def ulp_pos)
  have w: "w = of_int k * u"
    using assms(2) unfolding round_binary64_pos [OF v] k_def u_def
    by (simp split: if_splits del: power_numeral)
  have "0 \<le> v / u" using v u by simp
  then have k0: "0 \<le> k" unfolding k_def by (rule rne_nonneg)
  show ?thesis
  proof (cases "k = 0")
    case True
    then show ?thesis using w by simp
  next
    case False
    then have "1 \<le> real_of_int k" using k0 by simp
    then have "u \<le> of_int k * u" using u by simp
    moreover have "2 powr (- 1074) \<le> u" unfolding u_def by (rule ulp_ge)
    ultimately show ?thesis using w by simp
  qed
qed

lemma round_binary64_finite:
  assumes "\<bar>x\<bar> \<le> 2 powr 1023"
  shows "\<exists>w. round_binary64 x = Finite w"
proof (cases "x = 0")
  case True
  then show ?thesis by (simp add: round_binary64_def)
next
  case False
  define v where "v = \<bar>x\<bar>"
  define u where "u = ulp v"
  define k where "k = rne (v / u)"
  have v: "0 < v" using False by (simp add: v_def)
  have u: "0 < u" by (simp add: u_def ulp_pos)
  have "real_of_int k \<le> v / u + 1 / 2" unfolding k_def by (rule rne_bounds)
  then have "of_int k * u \<le> (v / u + 1 / 2) * u" using u by (intro mult_right_mono) simp_all
  also have "\<dots> = v + u / 2" using u by (simp add: field_simps)
  finally have ku: "of_int k * u \<le> v + u / 2" .
  have "u \<le> 2 powr (of_int 1023 - 52)"
    unfolding u_def using v assms by (intro ulp_le) (simp_all add: v_def)
  then have u971: "u \<le> 2 powr 971" by simp
  have "(2::real) powr 971 \<le> 2 powr 1023" by (subst powr_le_cancel_iff) simp_all
  then have "v + u / 2 < 2 * 2 powr 1023"
    using u971 assms u powr_gt_zero [of 2 1023] by (simp add: v_def)
  moreover have "2 * (2::real) powr 1023 = 2 ^ 1024"
  proof -
    have "(2::real) powr 1024 = 2 powr (1 + 1023)" by simp
    also have "\<dots> = 2 powr 1 * 2 powr 1023" by (rule powr_add)
    finally have "(2::real) powr 1024 = 2 * 2 powr 1023" by simp
    moreover have "(2::real) powr 1024 = 2 ^ 1024" by (rule powr_numeral) simp
    ultimately show ?thesis by (simp only:)
  qed
  ultimately have "\<not> 2 ^ 1024 \<le> of_int k * u" using ku by (simp only:)
  then show ?thesis
    using False unfolding round_binary64_def Let_def v_def [symmetric] u_def [symmetric]
      k_def [symmetric]
    by (simp only: if_False) blast
qed


lemma square_rounded:
  "round_binary64 (r * r) = PosInf \<or> (\<exists>w\<ge>0. round_binary64 (r * r) = Finite w)"
  by (rule round_binary64_nonneg) simp

lemma norm_stages:
  "float_norm2 (Finite rx, Finite ry, Finite rz) = PosInf \<or>
   (\<exists>a b c p q w. 0 \<le> a \<and> 0 \<le> b \<and> 0 \<le> c \<and> 0 \<le> p \<and> 0 \<le> q \<and> 0 \<le> w \<and>
     round_binary64 (rx * rx) = Finite a \<and> round_binary64 (ry * ry) = Finite b \<and>
     round_binary64 (rz * rz) = Finite c \<and> round_binary64 (a + b) = Finite p \<and>
     round_binary64 (p + c) = Finite q \<and> round_binary64 (sqrt q) = Finite w \<and>
     float_norm2 (Finite rx, Finite ry, Finite rz) = Finite w)"
proof -
  from square_rounded [of rx] consider "round_binary64 (rx * rx) = PosInf"
    | a where "0 \<le> a" "round_binary64 (rx * rx) = Finite a" by blast
  then show ?thesis
  proof cases
    case 1
    then show ?thesis using square_rounded [of ry] square_rounded [of rz]
      by (auto simp: float_norm2_def)
  next
    case a: (2 a)
    from square_rounded [of ry] consider "round_binary64 (ry * ry) = PosInf"
      | b where "0 \<le> b" "round_binary64 (ry * ry) = Finite b" by blast
    then show ?thesis
    proof cases
      case 1
      then show ?thesis using a square_rounded [of rz]
        by (auto simp: float_norm2_def)
    next
      case b: (2 b)
      from square_rounded [of rz] consider "round_binary64 (rz * rz) = PosInf"
        | c where "0 \<le> c" "round_binary64 (rz * rz) = Finite c" by blast
      then show ?thesis
      proof cases
        case 1
        then show ?thesis using a b round_binary64_nonneg [of "a + b"]
          by (auto simp: float_norm2_def)
      next
        case c: (2 c)
        from round_binary64_nonneg [of "a + b"] a(1) b(1)
        consider "round_binary64 (a + b) = PosInf"
          | p where "0 \<le> p" "round_binary64 (a + b) = Finite p" by auto
        then show ?thesis
        proof cases
          case 1
          then show ?thesis using a b c by (auto simp: float_norm2_def)
        next
          case p: (2 p)
          from round_binary64_nonneg [of "p + c"] p(1) c(1)
          consider "round_binary64 (p + c) = PosInf"
            | q where "0 \<le> q" "round_binary64 (p + c) = Finite q" by auto
          then show ?thesis
          proof cases
            case 1
            then show ?thesis using a b c p by (auto simp: float_norm2_def)
          next
            case q: (2 q)
            have n: "float_norm2 (Finite rx, Finite ry, Finite rz) = round_binary64 (sqrt q)"
              using a b c p q by (simp add: float_norm2_def)
            from round_binary64_nonneg [of "sqrt q"] q(1)
            consider "round_binary64 (sqrt q) = PosInf"
              | w where "0 \<le> w" "round_binary64 (sqrt q) = Finite w" by auto
            then show ?thesis
            proof cases
              case 1
              then show ?thesis using n by simp
            next
              case (2 w)
              then show ?thesis using n a b c p q
                by (intro disjI2 exI [of _ a] exI [of _ b] exI [of _ c] exI [of _ p]
                    exI [of _ q] exI [of _ w]) simp
            qed
          qed
        qed
      qed
    qed
  qed
qed

lemma component_bound:
  fixes r a s p c q w \<tau> :: real
  assumes nonneg: "0 \<le> s" "0 \<le> c" "0 \<le> p" "0 \<le> q" "0 \<le> w" "0 \<le> \<tau>"
    and l1: "r * r \<le> 2 * a \<or> r * r \<le> \<tau>"
    and as: "a \<le> s"
    and l2: "s \<le> 2 * p \<or> s \<le> \<tau>"
    and l3: "p + c \<le> 2 * q \<or> p + c \<le> \<tau>"
    and l4: "sqrt q \<le> 2 * w \<or> sqrt q \<le> \<tau>"
  shows "r * r \<le> 32 * (w * w) + 8 * (\<tau> * \<tau>) + 4 * \<tau>"
proof -
  have q: "q \<le> 4 * (w * w) \<or> q \<le> \<tau> * \<tau>"
  proof -
    have sq: "q = sqrt q * sqrt q" using nonneg(4) by simp
    from l4 show ?thesis
    proof
      assume "sqrt q \<le> 2 * w"
      then have "sqrt q * sqrt q \<le> (2 * w) * (2 * w)"
        by (intro mult_mono) (simp_all add: nonneg)
      then show ?thesis using sq by simp
    next
      assume "sqrt q \<le> \<tau>"
      then have "sqrt q * sqrt q \<le> \<tau> * \<tau>"
        by (intro mult_mono) (simp_all add: nonneg)
      then show ?thesis using sq by simp
    qed
  qed
  have ww: "0 \<le> w * w" and tt: "0 \<le> \<tau> * \<tau>" by simp_all
  have qb: "q \<le> 4 * (w * w) + \<tau> * \<tau>" using q ww tt by linarith
  have pb: "p \<le> 8 * (w * w) + 2 * (\<tau> * \<tau>) + \<tau>"
    using l3 qb nonneg ww tt by linarith
  have sb: "s \<le> 16 * (w * w) + 4 * (\<tau> * \<tau>) + 2 * \<tau>"
    using l2 pb nonneg ww tt by linarith
  show ?thesis using l1 as sb nonneg ww tt by linarith
qed

lemma last_component_bound:
  fixes r c p q w \<tau> :: real
  assumes nonneg: "0 \<le> c" "0 \<le> p" "0 \<le> q" "0 \<le> w" "0 \<le> \<tau>"
    and l1: "r * r \<le> 2 * c \<or> r * r \<le> \<tau>"
    and l3: "p + c \<le> 2 * q \<or> p + c \<le> \<tau>"
    and l4: "sqrt q \<le> 2 * w \<or> sqrt q \<le> \<tau>"
  shows "r * r \<le> 32 * (w * w) + 8 * (\<tau> * \<tau>) + 4 * \<tau>"
proof -
  have "r * r \<le> 2 * (p + c) \<or> r * r \<le> \<tau>" using l1 nonneg by auto
  moreover have "p + c \<le> p + c" by simp
  moreover have "p + c \<le> 2 * (p + c) \<or> p + c \<le> \<tau>" using nonneg by auto
  moreover have "(p + c) + 0 \<le> 2 * q \<or> (p + c) + 0 \<le> \<tau>" using l3 by simp
  ultimately show ?thesis
    using component_bound [of "p + c" 0 "p + c" q w \<tau> r "p + c"] nonneg l4 by simp
qed

lemma below_threshold:
  fixes r w :: real
  assumes w: "2 powr (- 1074) \<le> w"
    and r: "r * r \<le> 32 * (w * w) + 8 * (2 powr (- 1075) * 2 powr (- 1075)) + 4 * 2 powr (- 1075)"
  shows "\<bar>r / w\<bar> \<le> 2 powr 1023"
proof -
  define \<tau> :: real where "\<tau> = 2 powr (- 1075)"
  define B :: real where "B = 2 powr 1023"
  have \<tau>: "0 < \<tau>" by (simp add: \<tau>_def)
  have w2: "2 * \<tau> \<le> w"
  proof -
    have "(2::real) powr (- 1074) = 2 powr (1 + (- 1075))" by simp
    also have "\<dots> = 2 powr 1 * 2 powr (- 1075)" by (rule powr_add)
    finally show ?thesis using w by (simp add: \<tau>_def)
  qed
  have wpos: "0 < w" using w2 \<tau> by linarith
  have B16: "16 \<le> B"
  proof -
    have "(2::real) powr 4 \<le> 2 powr 1023" by (subst powr_le_cancel_iff) simp_all
    then show ?thesis by (simp add: B_def)
  qed
  have B\<tau>: "B * B * (2 * \<tau>) = 2 powr 972"
  proof -
    have "B * B * (2 * \<tau>) = 2 powr 1023 * 2 powr 1023 * (2 powr 1 * 2 powr (- 1075))"
      by (simp add: B_def \<tau>_def)
    also have "\<dots> = 2 powr (1023 + 1023 + (1 + (- 1075)))"
      by (simp only: powr_add)
    finally show ?thesis by simp
  qed
  have "(1::real) \<le> 2 powr 972" by (rule ge_one_powr_ge_zero) simp_all
  then have B1: "1 \<le> B * B * (2 * \<tau>)" using B\<tau> by simp
  have ww: "4 * (\<tau> * \<tau>) \<le> w * w"
  proof -
    have "(2 * \<tau>) * (2 * \<tau>) \<le> w * w" using w2 \<tau> by (intro mult_mono) simp_all
    then show ?thesis by simp
  qed
  have BB: "256 * (w * w) \<le> B * B * (w * w)"
  proof -
    have "16 * 16 \<le> B * B" using B16 by (intro mult_mono) simp_all
    then have "16 * 16 * (w * w) \<le> B * B * (w * w)" by (intro mult_right_mono) simp_all
    then show ?thesis by simp
  qed
  have t8: "8 * \<tau> \<le> B * B * (w * w)"
  proof -
    have "B * B * (4 * (\<tau> * \<tau>)) \<le> B * B * (w * w)"
      using ww by (intro mult_left_mono) simp_all
    moreover have "B * B * (4 * (\<tau> * \<tau>)) = (B * B * (2 * \<tau>)) * (2 * \<tau>)" by simp
    moreover have "1 * (2 * \<tau>) \<le> (B * B * (2 * \<tau>)) * (2 * \<tau>)"
      using B1 \<tau> by (intro mult_right_mono) simp_all
    ultimately have "2 * \<tau> \<le> B * B * (w * w)" by linarith
    moreover have "B * B * (2 * \<tau>) * (2 * \<tau>) = 2 powr 972 * (2 * \<tau>)" using B\<tau> by simp
    moreover have "(4::real) \<le> 2 powr 972"
    proof -
      have "(2::real) powr 2 \<le> 2 powr 972" by (subst powr_le_cancel_iff) simp_all
      then show ?thesis by simp
    qed
    then have "4 * (2 * \<tau>) \<le> 2 powr 972 * (2 * \<tau>)"
      using \<tau> by (intro mult_right_mono) simp_all
    ultimately show ?thesis
      using \<open>B * B * (4 * (\<tau> * \<tau>)) \<le> B * B * (w * w)\<close>
        \<open>B * B * (4 * (\<tau> * \<tau>)) = (B * B * (2 * \<tau>)) * (2 * \<tau>)\<close> by linarith
  qed
  have "r * r \<le> 32 * (w * w) + 8 * (\<tau> * \<tau>) + 4 * \<tau>" using r by (simp add: \<tau>_def)
  also have "\<dots> \<le> B * B * (w * w)"
  proof -
    have "0 \<le> w * w" by simp
    then show ?thesis using BB t8 ww by linarith
  qed
  finally have "r * r \<le> (B * w) * (B * w)" by (simp add: algebra_simps)
  then have "r\<^sup>2 \<le> (B * w)\<^sup>2" by (simp add: power2_eq_square)
  then have "\<bar>r\<bar> \<le> \<bar>B * w\<bar>" by (simp only: abs_le_square_iff)
  moreover have "0 \<le> B * w" using B16 wpos by simp
  ultimately have "\<bar>r\<bar> \<le> B * w" by simp
  then have "\<bar>r\<bar> / w \<le> B" using wpos by (simp add: field_simps)
  then show ?thesis using wpos by (simp add: B_def)
qed


lemma norm_divides:
  assumes n: "float_norm2 (Finite rx, Finite ry, Finite rz) = Finite w" and w: "w \<noteq> 0"
  shows "\<bar>rx / w\<bar> \<le> 2 powr 1023 \<and> \<bar>ry / w\<bar> \<le> 2 powr 1023 \<and> \<bar>rz / w\<bar> \<le> 2 powr 1023"
proof -
  define \<tau> :: real where "\<tau> = 2 powr (- 1075)"
  have \<tau>: "0 \<le> \<tau>" by (simp add: \<tau>_def)
  from norm_stages [of rx ry rz] n obtain a b c p q
    where nonneg: "0 \<le> a" "0 \<le> b" "0 \<le> c" "0 \<le> p" "0 \<le> q" "0 \<le> w"
      and a: "round_binary64 (rx * rx) = Finite a"
      and b: "round_binary64 (ry * ry) = Finite b"
      and c: "round_binary64 (rz * rz) = Finite c"
      and p: "round_binary64 (a + b) = Finite p"
      and q: "round_binary64 (p + c) = Finite q"
      and s: "round_binary64 (sqrt q) = Finite w"
    by auto
  have la: "rx * rx \<le> 2 * a \<or> rx * rx \<le> \<tau>"
    unfolding \<tau>_def by (rule round_binary64_lower [OF _ a]) simp
  have lb: "ry * ry \<le> 2 * b \<or> ry * ry \<le> \<tau>"
    unfolding \<tau>_def by (rule round_binary64_lower [OF _ b]) simp
  have lc: "rz * rz \<le> 2 * c \<or> rz * rz \<le> \<tau>"
    unfolding \<tau>_def by (rule round_binary64_lower [OF _ c]) simp
  have lp: "a + b \<le> 2 * p \<or> a + b \<le> \<tau>"
    unfolding \<tau>_def by (rule round_binary64_lower [OF _ p]) (simp add: nonneg)
  have lq: "p + c \<le> 2 * q \<or> p + c \<le> \<tau>"
    unfolding \<tau>_def by (rule round_binary64_lower [OF _ q]) (simp add: nonneg)
  have ls: "sqrt q \<le> 2 * w \<or> sqrt q \<le> \<tau>"
    unfolding \<tau>_def by (rule round_binary64_lower [OF _ s]) (simp add: nonneg)
  have wmin: "2 powr (- 1074) \<le> w"
    using round_binary64_min [OF _ s] nonneg w by simp
  have ab: "0 \<le> a + b" using nonneg by simp
  have bx: "rx * rx \<le> 32 * (w * w) + 8 * (\<tau> * \<tau>) + 4 * \<tau>"
    by (rule component_bound [OF ab nonneg(3) nonneg(4) nonneg(5) nonneg(6) \<tau> la _ lp lq ls])
      (simp add: nonneg)
  have by': "ry * ry \<le> 32 * (w * w) + 8 * (\<tau> * \<tau>) + 4 * \<tau>"
    by (rule component_bound [OF ab nonneg(3) nonneg(4) nonneg(5) nonneg(6) \<tau> lb _ lp lq ls])
      (simp add: nonneg)
  have bz: "rz * rz \<le> 32 * (w * w) + 8 * (\<tau> * \<tau>) + 4 * \<tau>"
    by (rule last_component_bound [OF nonneg(3) nonneg(4) nonneg(5) nonneg(6) \<tau> lc lq ls])
  show ?thesis
    using below_threshold [OF wmin bx [unfolded \<tau>_def]]
      below_threshold [OF wmin by' [unfolded \<tau>_def]]
      below_threshold [OF wmin bz [unfolded \<tau>_def]]
    by (intro conjI)
qed

lemma finite_doubleE:
  assumes "finite_double f"
  obtains r where "f = Finite r" and "round_binary64 r = Finite r"
  using assms by (cases f) (simp_all add: finite_double_def)

lemma column_finite:
  assumes x: "finite_double x" and y: "finite_double y" and z: "finite_double z"
  defines "n \<equiv> float_norm2 (x, y, z)"
  defines "d \<equiv> if n = Finite 0 then Finite 1 else n"
  shows "d \<noteq> Finite 0 \<and> d \<noteq> NaN \<and>
    (\<exists>nx ny nz. float_div x d = Finite nx \<and> float_div y d = Finite ny \<and>
       float_div z d = Finite nz) \<and>
    (n = Finite 0 \<longrightarrow> float_div x d = x \<and> float_div y d = y \<and> float_div z d = z)"
proof -
  from x obtain rx where rx: "x = Finite rx" "round_binary64 rx = Finite rx"
    by (rule finite_doubleE)
  from y obtain ry where ry: "y = Finite ry" "round_binary64 ry = Finite ry"
    by (rule finite_doubleE)
  from z obtain rz where rz: "z = Finite rz" "round_binary64 rz = Finite rz"
    by (rule finite_doubleE)
  from norm_stages [of rx ry rz]
  consider "n = PosInf" | "n = Finite 0" | w where "n = Finite w" "w \<noteq> 0"
    unfolding n_def rx(1) ry(1) rz(1) by blast
  then show ?thesis
  proof cases
    case 1
    then show ?thesis by (simp add: d_def rx(1) ry(1) rz(1))
  next
    case 2
    then show ?thesis by (simp add: d_def rx ry rz)
  next
    case (3 w)
    from norm_divides [OF 3(1) [unfolded n_def rx(1) ry(1) rz(1)] 3(2)]
    have "\<exists>nx. round_binary64 (rx / w) = Finite nx" "\<exists>ny. round_binary64 (ry / w) = Finite ny"
      "\<exists>nz. round_binary64 (rz / w) = Finite nz"
      by (simp_all add: round_binary64_finite)
    then show ?thesis using 3 by (simp add: d_def rx(1) ry(1) rz(1))
  qed
qed

lemma round_binary64_powr:
  assumes "- 1022 \<le> k" and "k < 1024"
  shows "round_binary64 (2 powr of_int k) = Finite (2 powr of_int k)"
proof -
  define x :: real where "x = 2 powr of_int k"
  have pos: "0 < x" by (simp add: x_def)
  have "log 2 x = of_int k" by (simp add: x_def)
  then have fl: "\<lfloor>log 2 x\<rfloor> = k" by simp
  have u: "ulp x = 2 powr (of_int k - 52)"
    unfolding ulp_def fl using assms(1) by (simp only: max_absorb1)
  have "x / ulp x = x / 2 powr (of_int k - 52)" by (simp only: u)
  also have "\<dots> = 2 powr (of_int k - (of_int k - 52))"
    unfolding x_def by (rule powr_diff [symmetric])
  also have "\<dots> = 2 powr 52" by simp
  also have "\<dots> = of_int (2 ^ 52)" by simp
  finally have quot: "x / ulp x = of_int (2 ^ 52)" .
  have r: "rne (x / ulp x) = 2 ^ 52" unfolding quot by (simp add: rne_def)
  have "of_int (rne (x / ulp x)) * ulp x = of_int (2 ^ 52) * ulp x" by (simp only: r)
  also have "\<dots> = 2 powr 52 * 2 powr (of_int k - 52)" unfolding u by simp
  also have "\<dots> = 2 powr (52 + (of_int k - 52))" by (rule powr_add [symmetric])
  also have "\<dots> = x" by (simp add: x_def)
  finally have w: "of_int (rne (x / ulp x)) * ulp x = x" .
  have "x < 2 powr 1024" unfolding x_def using assms(2) by (subst powr_less_cancel_iff) simp_all
  moreover have "(2::real) powr 1024 = 2 ^ 1024"
    using powr_realpow [of "2::real" 1024] by simp
  ultimately have lt: "\<not> 2 ^ 1024 \<le> x" by simp
  have "round_binary64 x = Finite x"
    using pos lt by (simp only: round_binary64_def Let_def abs_of_pos w) simp
  then show ?thesis by (simp only: x_def)
qed


lemma round_binary64_overflow:
  assumes "1024 \<le> k"
  shows "round_binary64 (2 powr of_int k) = PosInf"
proof -
  define x :: real where "x = 2 powr of_int k"
  have pos: "0 < x" by (simp add: x_def)
  have "log 2 x = of_int k" by (simp add: x_def)
  then have fl: "\<lfloor>log 2 x\<rfloor> = k" by simp
  have u: "ulp x = 2 powr (of_int k - 52)"
    unfolding ulp_def fl using assms by (simp only: max_absorb1)
  have "x / ulp x = x / 2 powr (of_int k - 52)" by (simp only: u)
  also have "\<dots> = 2 powr (of_int k - (of_int k - 52))"
    unfolding x_def by (rule powr_diff [symmetric])
  also have "\<dots> = 2 powr 52" by simp
  also have "\<dots> = of_int (2 ^ 52)" by simp
  finally have quot: "x / ulp x = of_int (2 ^ 52)" .
  have r: "rne (x / ulp x) = 2 ^ 52" unfolding quot by (simp add: rne_def)
  have "of_int (rne (x / ulp x)) * ulp x = of_int (2 ^ 52) * ulp x" by (simp only: r)
  also have "\<dots> = 2 powr 52 * 2 powr (of_int k - 52)" unfolding u by simp
  also have "\<dots> = 2 powr (52 + (of_int k - 52))" by (rule powr_add [symmetric])
  also have "\<dots> = x" by (simp add: x_def)
  finally have w: "of_int (rne (x / ulp x)) * ulp x = x" .
  have "2 powr 1024 \<le> x" unfolding x_def using assms by (subst powr_le_cancel_iff) simp_all
  moreover have "(2::real) powr 1024 = 2 ^ 1024"
    using powr_realpow [of "2::real" 1024] by simp
  ultimately have ge: "2 ^ 1024 \<le> x" by simp
  have "round_binary64 x = PosInf"
    using pos ge by (simp only: round_binary64_def Let_def abs_of_pos w) simp
  then show ?thesis by (simp only: x_def)
qed

lemma round_binary64_underflow:
  assumes "k < - 1075"
  shows "round_binary64 (2 powr of_int k) = Finite 0"
proof -
  define x :: real where "x = 2 powr of_int k"
  have pos: "0 < x" by (simp add: x_def)
  have "log 2 x = of_int k" by (simp add: x_def)
  then have fl: "\<lfloor>log 2 x\<rfloor> = k" by simp
  have u: "ulp x = 2 powr (of_int (- 1022) - 52)"
    unfolding ulp_def fl using assms by (simp only: max_absorb2)
  have "x / ulp x = x / 2 powr (of_int (- 1022) - 52)" by (simp only: u)
  also have "\<dots> = 2 powr (of_int k - (of_int (- 1022) - 52))"
    unfolding x_def by (rule powr_diff [symmetric])
  finally have quot: "x / ulp x = 2 powr (of_int k + 1074)" by simp
  have "2 powr (of_int k + 1074) < 2 powr (- 1 :: real)"
    using assms by (subst powr_less_cancel_iff) simp_all
  also have "2 powr (- 1 :: real) = 1 / 2" by (simp add: powr_minus_divide)
  finally have small: "x / ulp x < 1 / 2" using quot by simp
  have nonneg: "0 \<le> x / ulp x" using quot by simp
  have lt1: "x / ulp x < 1" using small by linarith
  have "\<lfloor>x / ulp x\<rfloor> = 0" by (rule floor_unique) (use nonneg lt1 in simp_all)
  then have r: "rne (x / ulp x) = 0" using small by (simp add: rne_def Let_def)
  have "round_binary64 x = Finite 0"
    using pos by (simp only: round_binary64_def Let_def abs_of_pos r) simp
  then show ?thesis by (simp only: x_def)
qed

lemma round_binary64_0: "round_binary64 0 = Finite 0"
  by (simp add: round_binary64_def)

lemma round_binary64_1: "round_binary64 1 = Finite 1"
  using round_binary64_powr [of 0] by simp

lemma round_binary64_2: "round_binary64 2 = Finite 2"
  using round_binary64_powr [of 1] by simp

lemma round_binary64_4: "round_binary64 4 = Finite 4"
  using round_binary64_powr [of 2] by simp

lemma normalized_float_l2_nth:
  "i < length a \<Longrightarrow> j < length (a ! i) \<Longrightarrow>
   normalized_float_l2 a ! i ! j =
     (if float_norm2 (a ! i ! j) = Finite 0 then Finite 1 else float_norm2 (a ! i ! j))"
  by (simp add: normalized_float_l2_def)

lemma normalized_float_pointwise:
  "normalized_float a =
     map (map (\<lambda>v. case v of (x, y, z) \<Rightarrow>
       let d = (if float_norm2 v = Finite 0 then Finite 1 else float_norm2 v)
       in (float_div x d, float_div y d, float_div z d))) a"
proof -
  let ?g = "\<lambda>x. if x = Finite 0 then Finite 1 else x"
  let ?h = "\<lambda>(v :: npfloat \<times> npfloat \<times> npfloat) d.
    case v of (x, y, z) \<Rightarrow> (float_div x d, float_div y d, float_div z d)"
  let ?c = "\<lambda>v. case v of (x, y, z) \<Rightarrow>
       let d = (if float_norm2 v = Finite 0 then Finite 1 else float_norm2 v)
       in (float_div x d, float_div y d, float_div z d)"
  have row: "map2 ?h r (map ?g (map float_norm2 r)) = map ?c r" for r
    by (induction r) (auto simp: Let_def)
  have "normalized_float a = map2 (map2 ?h) a (map (\<lambda>r. map ?g (map float_norm2 r)) a)"
    by (simp add: normalized_float_def normalized_float_l2_def)
  also have "\<dots> = map (\<lambda>r. map2 ?h r (map ?g (map float_norm2 r))) a"
    by (rule map2_same_map)
  also have "\<dots> = map (map ?c) a"
    by (simp only: row)
  finally show ?thesis .
qed

lemma float_norm2_zero: "float_norm2 (Finite 0, Finite 0, Finite 0) = Finite 0"
  by (simp add: float_norm2_def round_binary64_0)

text \<open>
  Claim C8, as stated (for every input array the normalisation never produces NaN or
  infinity), fails: the array may hold an infinite entry, and the column
  \<^verbatim>\<open>(inf, 0, 0)\<close> has the norm \<^verbatim>\<open>inf\<close>, which the guard \<^verbatim>\<open>l2 == 0\<close> leaves alone, so
  the first component is \<^verbatim>\<open>inf / inf\<close>, which is NaN.
\<close>

theorem normalized_float_infinite_counterexample:
  "normalized_float [[(PosInf, Finite 0, Finite 0)]] = [[(NaN, Finite 0, Finite 0)]]"
  by (simp add: normalized_float_def normalized_float_l2_def float_norm2_def round_binary64_0)

text \<open>
  Claim C8, amended. For every array whose entries are all finite doubles,
  \<^verbatim>\<open>normalized\<close> keeps the shape; the divisor of each column is its computed norm, or 1
  when the computed norm is 0, so it is neither 0 nor NaN; the three quotients are
  finite, that is neither NaN nor an infinity; a column whose computed norm is 0 is
  returned as it is; and the zero column has the computed norm 0, so it is normalised
  to the zero vector.
\<close>

theorem normalized_float_finite:
  assumes "\<forall>row \<in> set a. \<forall>v \<in> set row.
             case v of (x, y, z) \<Rightarrow> finite_double x \<and> finite_double y \<and> finite_double z"
  shows "length (normalized_float a) = length a \<and>
   (\<forall>i < length a. length (normalized_float a ! i) = length (a ! i) \<and>
     (\<forall>j < length (a ! i).
        (case (a ! i ! j, normalized_float a ! i ! j, normalized_float_l2 a ! i ! j) of
           ((x, y, z), (nx, ny, nz), d) \<Rightarrow>
             d = (if float_norm2 (x, y, z) = Finite 0 then Finite 1
                  else float_norm2 (x, y, z)) \<and>
             d \<noteq> Finite 0 \<and> d \<noteq> NaN \<and>
             nx = float_div x d \<and> ny = float_div y d \<and> nz = float_div z d \<and>
             (\<exists>rx ry rz. nx = Finite rx \<and> ny = Finite ry \<and> nz = Finite rz) \<and>
             (float_norm2 (x, y, z) = Finite 0 \<longrightarrow> (nx, ny, nz) = (x, y, z)) \<and>
             ((x, y, z) = (Finite 0, Finite 0, Finite 0) \<longrightarrow>
                (nx, ny, nz) = (Finite 0, Finite 0, Finite 0)))))"
proof (intro conjI allI impI)
  show "length (normalized_float a) = length a" by (simp add: normalized_float_pointwise)
next
  fix i assume "i < length a"
  then show "length (normalized_float a ! i) = length (a ! i)"
    by (simp add: normalized_float_pointwise)
next
  fix i j assume i: "i < length a" and j: "j < length (a ! i)"
  obtain x y z where v: "a ! i ! j = (x, y, z)" by (cases "a ! i ! j") auto
  have "a ! i \<in> set a" using i by simp
  moreover have "a ! i ! j \<in> set (a ! i)" using j by simp
  ultimately have fd: "finite_double x" "finite_double y" "finite_double z"
    using assms v by fastforce+
  define n where "n = float_norm2 (x, y, z)"
  define d where "d = (if n = Finite 0 then Finite 1 else n)"
  have col: "d \<noteq> Finite 0 \<and> d \<noteq> NaN \<and>
    (\<exists>nx ny nz. float_div x d = Finite nx \<and> float_div y d = Finite ny \<and>
       float_div z d = Finite nz) \<and>
    (n = Finite 0 \<longrightarrow> float_div x d = x \<and> float_div y d = y \<and> float_div z d = z)"
    unfolding d_def n_def by (rule column_finite [OF fd])
  have l2: "normalized_float_l2 a ! i ! j = d"
    using i j by (simp add: normalized_float_l2_nth v d_def n_def)
  have res: "normalized_float a ! i ! j = (float_div x d, float_div y d, float_div z d)"
    using i j by (simp add: normalized_float_pointwise v d_def n_def Let_def)
  have zero: "(x, y, z) = (Finite 0, Finite 0, Finite 0) \<Longrightarrow> n = Finite 0"
    by (simp add: n_def float_norm2_zero)
  show "case (a ! i ! j, normalized_float a ! i ! j, normalized_float_l2 a ! i ! j) of
           ((x, y, z), (nx, ny, nz), d) \<Rightarrow>
             d = (if float_norm2 (x, y, z) = Finite 0 then Finite 1
                  else float_norm2 (x, y, z)) \<and>
             d \<noteq> Finite 0 \<and> d \<noteq> NaN \<and>
             nx = float_div x d \<and> ny = float_div y d \<and> nz = float_div z d \<and>
             (\<exists>rx ry rz. nx = Finite rx \<and> ny = Finite ry \<and> nz = Finite rz) \<and>
             (float_norm2 (x, y, z) = Finite 0 \<longrightarrow> (nx, ny, nz) = (x, y, z)) \<and>
             ((x, y, z) = (Finite 0, Finite 0, Finite 0) \<longrightarrow>
                (nx, ny, nz) = (Finite 0, Finite 0, Finite 0))"
    unfolding v res l2 using col zero by (auto simp: d_def n_def)
qed

theorem normalized_float_finite_witness:
  "finite_double (Finite 0) \<and> finite_double (Finite 2) \<and>
   normalized_float_l2 [[(Finite 0, Finite 0, Finite 0), (Finite 0, Finite 0, Finite 2)]] =
     [[Finite 1, Finite 2]] \<and>
   normalized_float [[(Finite 0, Finite 0, Finite 0), (Finite 0, Finite 0, Finite 2)]] =
     [[(Finite 0, Finite 0, Finite 0), (Finite 0, Finite 0, Finite 1)]]"
proof -
  have fd: "finite_double (Finite 0)" "finite_double (Finite 2)"
    by (simp_all add: finite_double_def round_binary64_0 round_binary64_2)
  have n: "float_norm2 (Finite 0, Finite 0, Finite 2) = Finite 2"
    by (simp add: float_norm2_def round_binary64_0 round_binary64_2 round_binary64_4)
  have l2: "normalized_float_l2 [[(Finite 0, Finite 0, Finite 0), (Finite 0, Finite 0, Finite 2)]] =
     [[Finite 1, Finite 2]]"
    by (simp add: normalized_float_l2_def float_norm2_zero n)
  have h: "\<forall>row \<in> set [[(Finite 0, Finite 0, Finite 0), (Finite 0, Finite 0, Finite 2)]].
      \<forall>v \<in> set row. case v of (x, y, z) \<Rightarrow> finite_double x \<and> finite_double y \<and> finite_double z"
    by (simp add: fd)
  have len: "length (normalized_float [[(Finite 0, Finite 0, Finite 0), (Finite 0, Finite 0, Finite 2)]]) =
      length [[(Finite 0 :: npfloat, Finite 0 :: npfloat, Finite 0 :: npfloat), (Finite 0, Finite 0, Finite 2)]]"
    by (rule conjunct1 [OF normalized_float_finite [OF h]])
  have res: "normalized_float [[(Finite 0, Finite 0, Finite 0), (Finite 0, Finite 0, Finite 2)]] =
     [[(Finite 0, Finite 0, Finite 0), (Finite 0, Finite 0, Finite 1)]]"
    by (simp add: normalized_float_def l2 round_binary64_0 round_binary64_1)
  show ?thesis using fd l2 res len by simp
qed

text \<open>
  The computed norm is 0 for more than the zero column: the square of \<^verbatim>\<open>2 ** -600\<close>
  underflows to 0, so the guard fires and the column is returned as it is, neither of
  unit length nor zero.
\<close>

lemma normalized_float_underflow:
  "finite_double (Finite (2 powr - 600)) \<and>
   float_norm2 (Finite (2 powr - 600), Finite 0, Finite 0) = Finite 0 \<and>
   normalized_float [[(Finite (2 powr - 600), Finite 0, Finite 0)]] =
     [[(Finite (2 powr - 600), Finite 0, Finite 0)]]"
proof -
  define c :: real where "c = 2 powr - 600"
  have r: "round_binary64 c = Finite c"
    unfolding c_def using round_binary64_powr [of "- 600"] by simp
  have cc: "c * c = 2 powr of_int (- 1200)"
    unfolding c_def by (simp add: powr_add [symmetric])
  have sq: "round_binary64 (c * c) = Finite 0"
    unfolding cc by (rule round_binary64_underflow) simp
  have n: "float_norm2 (Finite c, Finite 0, Finite 0) = Finite 0"
    by (simp add: float_norm2_def sq round_binary64_0)
  show ?thesis
    unfolding c_def [symmetric]
    by (simp add: n finite_double_def r normalized_float_pointwise round_binary64_0)
qed

text \<open>
  And a column of finite entries can have an infinite computed norm: the square of
  \<^verbatim>\<open>2 ** 600\<close> overflows, and the column is normalised to the zero vector.
\<close>

lemma normalized_float_overflow:
  "finite_double (Finite (2 powr 600)) \<and>
   float_norm2 (Finite (2 powr 600), Finite 0, Finite 0) = PosInf \<and>
   normalized_float [[(Finite (2 powr 600), Finite 0, Finite 0)]] =
     [[(Finite 0, Finite 0, Finite 0)]]"
proof -
  define c :: real where "c = 2 powr 600"
  have r: "round_binary64 c = Finite c"
    unfolding c_def using round_binary64_powr [of 600] by simp
  have cc: "c * c = 2 powr of_int 1200"
    unfolding c_def by (simp add: powr_add [symmetric])
  have sq: "round_binary64 (c * c) = PosInf"
    unfolding cc by (rule round_binary64_overflow) simp
  have n: "float_norm2 (Finite c, Finite 0, Finite 0) = PosInf"
    by (simp add: float_norm2_def sq round_binary64_0)
  show ?thesis
    unfolding c_def [symmetric]
    by (simp add: n finite_double_def r normalized_float_pointwise round_binary64_0)
qed

subsection \<open>Projections\<close>




lemma dot_eye3: "dot eye3 A = A"
  by (cases A) (auto simp: dot_def eye3_def transpose3_def vdot_def)




text \<open>
  Claim C4. For every projection input the Qx/Qy/Qz projection returns what the HKL
  projection returns on the same input with the UB matrix replaced by the diagonal
  matrix whose three diagonal entries are \<open>2 \<pi>\<close>; the UB matrix of the input is not
  read, and of the two matrices the code assigns only the second is used.
\<close>

theorem QxQyQz_is_HKL_with_fixed_UB:
  "QxQyQzProjection_project index (PDataFrame pixels k UB R P) =
   HKLProjection_project index
     (PDataFrame pixels k ((2 * pi, 0, 0), (0, 2 * pi, 0), (0, 0, 2 * pi)) R P)"
  by (simp add: Let_def)

theorem QxQyQz_is_HKL_with_fixed_UB_witness:
  "QxQyQzProjection_project 0 (PDataFrame [[(0, 0, 2)]] (2 * pi) eye3 eye3 eye3) =
     HKLProjection_project 0
       (PDataFrame [[(0, 0, 2)]] (2 * pi) ((2 * pi, 0, 0), (0, 2 * pi, 0), (0, 0, 2 * pi)) eye3 eye3) \<and>
   QxQyQzProjection_project 0 (PDataFrame [[(0, 0, 2)]] (2 * pi) eye3 eye3 eye3) =
     Inr ([[- 1]], [[0]], [[1]])"
proof -
  have "HKLProjection_project 0
       (PDataFrame [[(0, 0, 2)]] (2 * pi) ((2 * pi, 0, 0), (0, 2 * pi, 0), (0, 0, 2 * pi)) eye3 eye3)
     = Inr ([[- 1]], [[0]], [[1]])"
    by (simp add: dot_eye3 Let_def linalg_inv_def det3_def tensordot_def normalized_def
        normalized_l2_def norm2_def unstack_def)
      (simp add: eye3_def dot_def dot_mv_def vdot_def vsub_def vscale_def transpose3_def
        field_simps power2_eq_square power3_eq_cube)
  with QxQyQz_is_HKL_with_fixed_UB [of 0 "[[(0, 0, 2)]]" "2 * pi" eye3 eye3 eye3]
  show ?thesis by simp
qed

text \<open>
  The first matrix assigned to \<^verbatim>\<open>UB\<close> is dead: with it in place of the second the
  same input would give another result.
\<close>

lemma QxQyQz_first_UB_unused:
  "HKLProjection_project 0
       (PDataFrame [[(0, 0, 2)]] (2 * pi) ((2 * pi, 0, 0), (0, 0, 2 * pi), (0, - 2 * pi, 0)) eye3 eye3)
     = Inr ([[- 1]], [[- 1]], [[0]])"
  by (simp add: dot_eye3 Let_def linalg_inv_def det3_def tensordot_def normalized_def
      normalized_l2_def norm2_def unstack_def)
    (simp add: eye3_def dot_def dot_mv_def vdot_def vsub_def vscale_def transpose3_def
      field_simps power2_eq_square power3_eq_cube)

subsection \<open>Kinematic chains\<close>

lemma ZAXIS_graph:
  "add_edges_from
     (add_node (add_node (add_node (add_node DiGraph_empty
        ''mu'' (Rotation (0, 0, 1) 0))
        ''omega'' (Rotation (0, - 1, 0) 0))
        ''delta'' (Rotation (0, - 1, 0) 0))
        ''gamma'' (Rotation (0, 0, 1) 0))
     [(''mu'', ''omega''), (''mu'', ''delta''), (''delta'', ''gamma'')] =
   \<lparr>nodes = [(''mu'', Some (Rotation (0, 0, 1) 0)),
             (''omega'', Some (Rotation (0, - 1, 0) 0)),
             (''delta'', Some (Rotation (0, - 1, 0) 0)),
             (''gamma'', Some (Rotation (0, 0, 1) 0))],
    edges = [(''mu'', ''omega''), (''mu'', ''delta''), (''delta'', ''gamma'')]\<rparr>"
  by (simp add: DiGraph_empty_def add_node_def add_edges_from_def add_edge_def touch_node_def)

lemma ZAXIS_chains:
  fixes ns :: "(string \<times> Rotation option) list"
  assumes "map fst ns = [''mu'', ''omega'', ''delta'', ''gamma'']"
  defines "g \<equiv> \<lparr>nodes = ns,
                 edges = [(''mu'', ''omega''), (''mu'', ''delta''), (''delta'', ''gamma'')]\<rparr>"
  shows "dijkstra_path g ''mu'' ''omega'' = Inr [''mu'', ''omega'']"
    and "dijkstra_path g ''mu'' ''gamma'' = Inr [''mu'', ''delta'', ''gamma'']"
proof -
  have l: "length ns = Suc (Suc (Suc (Suc 0)))"
    using arg_cong [OF assms(1), of length] by simp
  show "dijkstra_path g ''mu'' ''omega'' = Inr [''mu'', ''omega'']"
    by (simp add: g_def dijkstra_path_def assms(1) l successors_def grow_def ends_at_def)
  show "dijkstra_path g ''mu'' ''gamma'' = Inr [''mu'', ''delta'', ''gamma'']"
    by (simp add: g_def dijkstra_path_def assms(1) l successors_def grow_def ends_at_def)
qed

lemma get_axes_ZAXIS:
  "\<exists>g. get_axes ZAXIS = Inr (Axes [''mu'', ''omega''] [''mu'', ''delta'', ''gamma''] g)"
  by (simp add: get_axes_def Let_def ZAXIS_graph ZAXIS_chains)

lemma MED_graph:
  "add_edges_from
     (add_node (add_node (add_node (add_node DiGraph_empty
        ''pitch'' (Rotation (0, - 1, 0) 0))
        ''mu'' (Rotation (0, 0, 1) 0))
        ''gamma'' (Rotation (0, 0, 1) 0))
        ''delta'' (Rotation (0, - 1, 0) 0))
     [(''pitch'', ''mu''), (''pitch'', ''gamma''), (''gamma'', ''delta'')] =
   \<lparr>nodes = [(''pitch'', Some (Rotation (0, - 1, 0) 0)),
             (''mu'', Some (Rotation (0, 0, 1) 0)),
             (''gamma'', Some (Rotation (0, 0, 1) 0)),
             (''delta'', Some (Rotation (0, - 1, 0) 0))],
    edges = [(''pitch'', ''mu''), (''pitch'', ''gamma''), (''gamma'', ''delta'')]\<rparr>"
  by (simp add: DiGraph_empty_def add_node_def add_edges_from_def add_edge_def touch_node_def)

lemma MED_chains:
  fixes ns :: "(string \<times> Rotation option) list"
  assumes "map fst ns = [''pitch'', ''mu'', ''gamma'', ''delta'']"
  defines "g \<equiv> \<lparr>nodes = ns,
                 edges = [(''pitch'', ''mu''), (''pitch'', ''gamma''), (''gamma'', ''delta'')]\<rparr>"
  shows "dijkstra_path g ''pitch'' ''mu'' = Inr [''pitch'', ''mu'']"
    and "dijkstra_path g ''pitch'' ''delta'' = Inr [''pitch'', ''gamma'', ''delta'']"
proof -
  have l: "length ns = Suc (Suc (Suc (Suc 0)))"
    using arg_cong [OF assms(1), of length] by simp
  show "dijkstra_path g ''pitch'' ''mu'' = Inr [''pitch'', ''mu'']"
    by (simp add: g_def dijkstra_path_def assms(1) l successors_def grow_def ends_at_def)
  show "dijkstra_path g ''pitch'' ''delta'' = Inr [''pitch'', ''gamma'', ''delta'']"
    by (simp add: g_def dijkstra_path_def assms(1) l successors_def grow_def ends_at_def)
qed

lemma get_axes_MED:
  "\<exists>g. get_axes SOLEIL_SIXS_MED1_2 =
     Inr (Axes [''pitch'', ''mu''] [''pitch'', ''gamma'', ''delta''] g)"
  by (simp add: get_axes_def Let_def MED_graph MED_chains ZAXIS_def SOLEIL_SIXS_MED1_2_def)

text \<open>
  Claim C6. For every diffractometer name other than the two supported ones, building
  the kinematic graph raises \<^verbatim>\<open>NotImplementedError\<close> (the specification's
  UnsupportedGeometryError) with the name in its message; for ZAXIS it returns the
  sample chain mu, omega and the detector chain mu, delta, gamma, and for SOLEIL SIXS
  MED1+2 the sample chain pitch, mu and the detector chain pitch, gamma, delta.
\<close>

theorem get_axes_supported_or_error:
  "(name \<noteq> ZAXIS \<and> name \<noteq> SOLEIL_SIXS_MED1_2 \<longrightarrow>
      get_axes name =
        Inl (Exn NotImplementedError [''not yet supported diffractometer type:'' @ name])) \<and>
   (\<exists>g. get_axes ZAXIS = Inr (Axes [''mu'', ''omega''] [''mu'', ''delta'', ''gamma''] g)) \<and>
   (\<exists>g. get_axes SOLEIL_SIXS_MED1_2 =
      Inr (Axes [''pitch'', ''mu''] [''pitch'', ''gamma'', ''delta''] g))"
  using get_axes_ZAXIS get_axes_MED by (simp add: get_axes_def)

theorem get_axes_supported_or_error_witness:
  "''KAPPA6C'' \<noteq> ZAXIS \<and> ''KAPPA6C'' \<noteq> SOLEIL_SIXS_MED1_2 \<and>
   get_axes ''KAPPA6C'' =
     Inl (Exn NotImplementedError [''not yet supported diffractometer type:KAPPA6C''])"
proof -
  have n: "''KAPPA6C'' \<noteq> ZAXIS \<and> ''KAPPA6C'' \<noteq> SOLEIL_SIXS_MED1_2"
    by (simp add: ZAXIS_def SOLEIL_SIXS_MED1_2_def)
  with get_axes_supported_or_error [of "''KAPPA6C''"] show ?thesis by simp
qed

subsection \<open>Loading a mask matrix\<close>

text \<open>
  Claim C9. A \<^verbatim>\<open>None\<close> filename gives no mask and no error; a filename that does not
  exist raises \<^verbatim>\<open>IOError\<close> (the specification's NotFoundError); a filename that exists
  and whose extension is neither \<^verbatim>\<open>.txt\<close> nor \<^verbatim>\<open>.npy\<close> raises \<^verbatim>\<open>ValueError\<close> (the
  specification's UnsupportedFormatError). This holds whatever the file system and the
  two readers are.
\<close>

theorem load_matrix_errors:
  "load_matrix exists loadtxt load None = Inr None \<and>
   (\<not> exists fname \<longrightarrow>
      load_matrix exists loadtxt load (Some fname) =
        Inl (Exn IOError [''filename: '' @ fname @ '' does not exist. Can not load matrix''])) \<and>
   (exists fname \<and> snd (splitext fname) \<noteq> ''.txt'' \<and> snd (splitext fname) \<noteq> ''.npy'' \<longrightarrow>
      load_matrix exists loadtxt load (Some fname) =
        Inl (Exn ValueError
          [''unknown extension '' @ snd (splitext fname) @ '', unable to load matrix!'' @ [CHR 0x0A]]))"
  by (simp add: load_matrix_def Let_def)

lemma splitext_mask_png: "splitext ''masks/mask.png'' = (''masks/mask'', ''.png'')"
  by (simp add: splitext_def rfind_def upt_rec [of _ "numeral _"] upt_rec [of _ "Suc _"] Let_def)

theorem load_matrix_errors_witness:
  "\<not> (\<lambda>p. p = ''masks/mask.png'') ''gone.txt'' \<and>
   load_matrix (\<lambda>p. p = ''masks/mask.png'') (\<lambda>p. Inr []) (\<lambda>p. Inr []) (Some ''gone.txt'') =
     Inl (Exn IOError [''filename: gone.txt does not exist. Can not load matrix'']) \<and>
   (\<lambda>p. p = ''masks/mask.png'') ''masks/mask.png'' \<and>
   snd (splitext ''masks/mask.png'') = ''.png'' \<and>
   load_matrix (\<lambda>p. p = ''masks/mask.png'') (\<lambda>p. Inr []) (\<lambda>p. Inr []) (Some ''masks/mask.png'') =
     Inl (Exn ValueError [''unknown extension .png, unable to load matrix!'' @ [CHR 0x0A]])"
proof -
  note a = load_matrix_errors [of "\<lambda>p. p = ''masks/mask.png''" "\<lambda>p. Inr []" "\<lambda>p. Inr []" "''gone.txt''"]
  note b = load_matrix_errors [of "\<lambda>p. p = ''masks/mask.png''" "\<lambda>p. Inr []" "\<lambda>p. Inr []" "''masks/mask.png''"]
  from a b show ?thesis by (simp add: splitext_mask_png)
qed

subsection \<open>Configuration\<close>

text \<open>
  Claim C10. When everything else in the configuration parses (the base class's part,
  the two masks, the required \<^verbatim>\<open>nexusfile\<close>, \<^verbatim>\<open>sdd\<close> and \<^verbatim>\<open>centralpixel\<close>, and
  \<^verbatim>\<open>pr\<close>), a \<^verbatim>\<open>detrot\<close> entry that is present and on which \<^verbatim>\<open>float\<close> raises
  \<^verbatim>\<open>ValueError\<close> does not make \<^verbatim>\<open>parse_config\<close> raise: it returns the configuration
  with \<^verbatim>\<open>detrot\<close> set to \<^verbatim>\<open>None\<close>, the value an absent entry gives.
\<close>

theorem parse_config_detrot_unparseable:
  assumes "super_parse_config config = Inr (base, c1)"
    and "parse_multi_range (c1 ''xmask'') = Inr xm"
    and "parse_multi_range (c1 ''ymask'') = Inr ym"
    and "c1 ''nexusfile'' = Some nf"
    and "parse_pr parse_tuple (c1 ''pr'') = Inr prv"
    and "c1 ''sdd'' = Some sdd_raw" and "float sdd_raw = Inr sddv"
    and "c1 ''centralpixel'' = Some cp_raw" and "parse_tuple cp_raw = Inr cp"
    and "c1 ''detrot'' = Some s" and "float s = Inl (Exn ValueError args)"
  shows "parse_config super_parse_config parse_multi_range parse_tuple float config =
     Inr (\<lparr>base_config = base,
           xmask = (case xm of None \<Rightarrow> SliceAll | Some is \<Rightarrow> Indices is),
           ymask = (case ym of None \<Rightarrow> SliceAll | Some is \<Rightarrow> Indices is),
           nexusfile = nf, pr = prv, sdd = sddv, centralpixel = cp,
           maskmatrix = c1 ''maskmatrix'', detrot = None\<rparr>,
          c1(''xmask'' := None, ''ymask'' := None, ''nexusfile'' := None, ''pr'' := None,
             ''sdd'' := None, ''centralpixel'' := None, ''maskmatrix'' := None,
             ''detrot'' := None))"
  using assms
  by (simp add: parse_config_def bind_exn_def pop_required_def parse_detrot_def Let_def)

theorem parse_config_detrot_unparseable_witness:
  "\<exists>c rest.
     parse_config (\<lambda>c. Inr ((), c)) (\<lambda>r. Inr None) (\<lambda>t. Inr (1, 2))
       (\<lambda>s. if s = ''1.5'' then Inr (3 / 2 :: real) else Inl (Exn ValueError [''could not convert string to float'']))
       [''nexusfile'' \<mapsto> ''scan.nxs'', ''sdd'' \<mapsto> ''1.5'', ''centralpixel'' \<mapsto> ''1,2'',
        ''detrot'' \<mapsto> ''none''] = Inr (c, rest) \<and>
     detrot c = None \<and> sdd c = 3 / 2 \<and> rest ''detrot'' = None"
proof -
  let ?float = "\<lambda>s. if s = ''1.5'' then Inr (3 / 2 :: real)
                    else Inl (Exn ValueError [''could not convert string to float''])"
  let ?cfg = "[''nexusfile'' \<mapsto> ''scan.nxs'', ''sdd'' \<mapsto> ''1.5'', ''centralpixel'' \<mapsto> ''1,2'',
        ''detrot'' \<mapsto> ''none'']"
  have "parse_config (\<lambda>c. Inr ((), c)) (\<lambda>r. Inr None) (\<lambda>t. Inr (1, 2)) ?float ?cfg =
     Inr (\<lparr>base_config = (), xmask = SliceAll, ymask = SliceAll,
           nexusfile = ''scan.nxs'', pr = None, sdd = 3 / 2, centralpixel = (1, 2),
           maskmatrix = None, detrot = None\<rparr>,
          ?cfg(''xmask'' := None, ''ymask'' := None, ''nexusfile'' := None, ''pr'' := None,
             ''sdd'' := None, ''centralpixel'' := None, ''maskmatrix'' := None,
             ''detrot'' := None))"
    using parse_config_detrot_unparseable
      [of "\<lambda>c. Inr ((), c)" ?cfg "()" ?cfg "\<lambda>r. Inr None" None None "''scan.nxs''"
          "\<lambda>t. Inr (1, 2)" None "''1.5''" ?float "3 / 2" "''1,2''" "(1, 2)" "''none''"
          "[''could not convert string to float'']"]
    by (simp add: parse_pr_def)
  then show ?thesis by simp
qed

subsection \<open>Frame processing\<close>

lemma process_points_stops:
  assumes "a \<le> i" and "i \<le> b"
    and "\<forall>j. a \<le> j \<and> j < i \<longrightarrow> f j = Inr (out j)"
    and "f i = Inl e"
  shows "process_points f [a..b] = (map out [a..i - 1], Some e)"
  using assms
proof (induction "nat (i - a)" arbitrary: a)
  case 0
  then have "a = i" by simp
  with 0 show ?case by (simp add: upto_rec1 [of i b])
next
  case (Suc n)
  then have lt: "a < i" by linarith
  have fa: "f a = Inr (out a)" using Suc.prems lt by simp
  have ih: "process_points f [a + 1..b] = (map out [a + 1..i - 1], Some e)"
    using Suc.hyps(1) [of "a + 1"] Suc.hyps(2) Suc.prems lt by simp
  have l: "[a..b] = a # [a + 1..b]" using lt Suc.prems by (simp add: upto_rec1)
  have r: "[a..i - 1] = a # [a + 1..i - 1]" using lt by (simp add: upto_rec1)
  show ?case by (simp add: l r fa ih)
qed

text \<open>
  Claim C5. When the point \<open>i\<close> of a job raises while the points before it were
  processed, \<^verbatim>\<open>process_job\<close> yields the results of the points before \<open>i\<close> and then
  raises the same exception with a message added to its arguments; no later point is
  processed. The added message is formatted from the attributes \<^verbatim>\<open>dbg_scanno\<close> and
  \<^verbatim>\<open>dbg_pointno\<close> as the base class's \<^verbatim>\<open>process_job\<close> left them, not from the
  job's scan and the index \<open>i\<close>: nothing in this file assigns them, so with the class's
  own values the message names scan None and point None, whatever scan and point
  failed.
\<close>

theorem process_job_annotation:
  assumes "super_process_job self job = Inr self'"
    and "exists (nexusfile_format (zfill 5 (str_int (scan job))))"
    and "open_file (nexusfile_format (zfill 5 (str_int (scan job)))) = Inr h"
    and "dataframes h = (dataframe # frames, ending)"
    and "get_pixels dataframe = Inr pixels"
    and "firstpoint job \<le> i" and "i \<le> lastpoint job"
    and "\<forall>j. firstpoint job \<le> j \<and> j < i \<longrightarrow> process_image j dataframe pixels = Inr (out j)"
    and "process_image i dataframe pixels = Inl (Exn c args)"
  shows "process_job super_process_job exists nexusfile_format open_file dataframes get_pixels
           process_image addmessage self job =
         (map out [firstpoint job..i - 1],
          Some (Exn c (addmessage args
            ('', An error occured for scan '' @ format_field (dbg_scanno self') @
             '' at point '' @ format_field (dbg_pointno self') @
             ''. See above for more information''))))"
proof -
  have "process_points (\<lambda>index. process_image index dataframe pixels)
          [firstpoint job..lastpoint job] = (map out [firstpoint job..i - 1], Some (Exn c args))"
    using assms(6-9) by (intro process_points_stops) auto
  then show ?thesis
    using assms(1-5) by (simp add: process_job_def get_filename_def Let_def error_context_def)
qed

theorem process_job_annotation_witness:
  "process_job (\<lambda>self job. Inr self) (\<lambda>f. True) (\<lambda>n. ''scan_'' @ n @ ''.nxs'') (\<lambda>f. Inr ())
     (\<lambda>h. ([()], None)) (\<lambda>d. Inr ())
     (\<lambda>index d p. if index = 11 then Inl (Exn ValueError [''bad frame'']) else Inr index)
     (\<lambda>args m. case args of [] \<Rightarrow> [m] | a # rest \<Rightarrow> [a @ m])
     SIXS_class \<lparr>scan = 7, firstpoint = 10, lastpoint = 12, weight = 3\<rparr> =
   ([10], Some (Exn ValueError
      [''bad frame, An error occured for scan None at point None. See above for more information'']))"
proof -
  have u: "[10..11 - 1] = [10::int]" by (simp add: upto_rec1)
  from process_job_annotation
    [of "\<lambda>self job. Inr self" SIXS_class "\<lparr>scan = 7, firstpoint = 10, lastpoint = 12, weight = 3\<rparr>"
        SIXS_class "\<lambda>f. True" "\<lambda>n. ''scan_'' @ n @ ''.nxs''" "\<lambda>f. Inr ()" "()"
        "\<lambda>h. ([()], None)" "()" "[]" None "\<lambda>d. Inr ()" "()" 11
        "\<lambda>index d p. if index = 11 then Inl (Exn ValueError [''bad frame'']) else Inr index"
        "\<lambda>j. j" ValueError "[''bad frame'']"
        "\<lambda>args m. case args of [] \<Rightarrow> [m] | a # rest \<Rightarrow> [a @ m]"]
  show ?thesis by (simp add: SIXS_class_def format_field_def u)
qed

subsection \<open>The float threshold\<close>

lemma bitlen_eqI: "2 ^ n \<le> p \<Longrightarrow> p < 2 ^ Suc n \<Longrightarrow> bitlen p = int (Suc n)"
proof -
  assume a: "2 ^ n \<le> p" and b: "p < 2 ^ Suc n"
  have "(0::int) < 2 ^ n" by simp
  with a have p: "0 < p" by linarith
  from bitlen_bounds [OF p] have c: "2 ^ nat (bitlen p - 1) \<le> p" and d: "p < 2 ^ nat (bitlen p)"
    by auto
  have "(2::int) ^ n < 2 ^ nat (bitlen p)" using a d by linarith
  then have 1: "n < nat (bitlen p)" by simp
  have "(2::int) ^ nat (bitlen p - 1) < 2 ^ Suc n" using b c by linarith
  then have 2: "nat (bitlen p - 1) < Suc n" by (simp only: power_strict_increasing_iff) 
  from 1 2 show ?thesis by linarith
qed

lemma bitlen_le: 
  assumes "p < 2 ^ n" shows "bitlen p \<le> int n"
proof (cases "0 < p")
  case True
  from bitlen_bounds [OF True] have c: "2 ^ nat (bitlen p - 1) \<le> p" by auto
  have "(2::int) ^ nat (bitlen p - 1) < 2 ^ n" using assms c by linarith
  then have "nat (bitlen p - 1) < n" by (simp only: power_strict_increasing_iff)
  then show ?thesis by linarith
next
  case False
  then have "bitlen p = 0" by (simp add: bitlen_eq_zero_iff)
  then show ?thesis by simp
qed

lemma round_to_53_error:
  assumes "0 \<le> p"
  shows "2 ^ 53 * \<bar>round_to_53 p - p\<bar> \<le> p"
proof (cases "bitlen p - 53 \<le> 0")
  case True
  then show ?thesis using assms by (simp add: round_to_53_def)
next
  case False
  define e where "e = nat (bitlen p - 53)"
  define E :: int where "E = 2 ^ e"
  define h :: int where "h = 2 ^ (e - 1)"
  have e: "0 < e" using False by (simp add: e_def)
  have E2: "2 ^ nat (bitlen p - 53) = E" by (simp add: E_def e_def)
  have h2: "2 ^ nat (bitlen p - 53 - 1) = h" by (simp add: h_def e_def)
  have Eh: "E = 2 * h" unfolding E_def h_def using e by (cases e) auto
  have hpos: "0 < h" by (simp add: h_def)
  have p: "0 < p" using False assms by (cases "p = 0") auto
  have "nat (bitlen p - 1) = e + 52" using False by (simp add: e_def)
  with bitlen_bounds [OF p] have "2 ^ (e + 52) \<le> p" by simp
  then have big: "2 ^ 52 * E \<le> p" by (simp add: E_def power_add mult.commute)
  define q where "q = p div E"
  define r where "r = p mod E"
  have pq: "p = q * E + r" by (simp add: q_def r_def)
  have r0: "0 \<le> r" and rE: "r < E" using Eh hpos by (simp_all add: r_def)
  have val: "round_to_53 p = (if h < r \<or> (r = h \<and> odd q) then (q + 1) * E else q * E)"
    using False unfolding round_to_53_def Let_def E2 h2 q_def r_def by simp
  have "\<bar>round_to_53 p - p\<bar> \<le> h"
    unfolding val using pq r0 rE Eh by (auto simp: algebra_simps)
  then have "2 ^ 53 * \<bar>round_to_53 p - p\<bar> \<le> 2 ^ 53 * h" by simp
  also have "\<dots> = 2 ^ 52 * E" by (simp add: Eh)
  finally show ?thesis using big by linarith
qed

lemma round_to_53_small: "0 \<le> t \<Longrightarrow> t < 2 ^ 53 \<Longrightarrow> round_to_53 t = t"
  using bitlen_le [of t 53] by (simp add: round_to_53_def)

lemma times_1_4_eq:
  assumes "1 \<le> t" and "t < 2 ^ 53"
  shows "times_1_4 t = real_of_int (round_to_53 (t * 6305039478318694)) / 2 ^ 52"
  using assms by (simp add: times_1_4_def round_to_53_small)

lemma times_1_4_below:
  assumes "1 \<le> t" and "t \<le> 2 ^ 49" and "7 * t < 5 * n"
  shows "times_1_4 t < real_of_int n"
proof -
  define R where "R = round_to_53 (t * 6305039478318694)"
  have b: "2 ^ 53 * \<bar>R - t * 6305039478318694\<bar> \<le> t * 6305039478318694"
    unfolding R_def using assms(1) by (intro round_to_53_error) simp
  have "R - t * 6305039478318694 \<le> \<bar>R - t * 6305039478318694\<bar>" by simp
  then have "2 ^ 53 * (R - t * 6305039478318694) \<le> 2 ^ 53 * \<bar>R - t * 6305039478318694\<bar>"
    by (intro mult_left_mono) simp_all
  from order_trans [OF this b]
  have up: "2 ^ 53 * (R - t * 6305039478318694) \<le> t * 6305039478318694" .
  from assms(2) have t: "t \<le> 562949953421312" by simp
  have "R < n * 2 ^ 52" using up t assms(1,3) by simp
  then have "real_of_int R < real_of_int (n * 2 ^ 52)" by (simp only: of_int_less_iff)
  then have "real_of_int R / 2 ^ 52 < real_of_int n" by (simp add: field_simps)
  then show ?thesis using assms by (simp add: times_1_4_eq R_def)
qed

lemma times_1_4_above:
  assumes "1 \<le> t" and "t \<le> 2 ^ 49" and "5 * n < 7 * t"
  shows "real_of_int n \<le> times_1_4 t"
proof -
  define R where "R = round_to_53 (t * 6305039478318694)"
  have b: "2 ^ 53 * \<bar>R - t * 6305039478318694\<bar> \<le> t * 6305039478318694"
    unfolding R_def using assms(1) by (intro round_to_53_error) simp
  have "t * 6305039478318694 - R \<le> \<bar>R - t * 6305039478318694\<bar>" by simp
  then have "2 ^ 53 * (t * 6305039478318694 - R) \<le> 2 ^ 53 * \<bar>R - t * 6305039478318694\<bar>"
    by (intro mult_left_mono) simp_all
  from order_trans [OF this b]
  have lo: "2 ^ 53 * (t * 6305039478318694 - R) \<le> t * 6305039478318694" .
  from assms(2) have t: "t \<le> 562949953421312" by simp
  have "n * 2 ^ 52 \<le> R" using lo t assms(1,3) by simp
  then have "real_of_int (n * 2 ^ 52) \<le> real_of_int R" by (simp only: of_int_le_iff)
  then have "real_of_int n \<le> real_of_int R / 2 ^ 52" by (simp add: field_simps)
  then show ?thesis using assms by (simp add: times_1_4_eq R_def)
qed

lemma times_1_4_30: "times_1_4 30 = 42"
proof -
  have b: "bitlen (30 * 6305039478318694) = 58"
    using bitlen_eqI [of 57 "30 * 6305039478318694"] by simp
  have "round_to_53 (30 * 6305039478318694) = 42 * 2 ^ 52"
    unfolding round_to_53_def b by (simp add: Let_def)
  then show ?thesis by (simp add: times_1_4_eq)
qed

lemma times_1_4_45: "times_1_4 45 = 8866461766385663 / 2 ^ 47"
proof -
  have b: "bitlen (45 * 6305039478318694) = 58"
    using bitlen_eqI [of 57 "45 * 6305039478318694"] by simp
  have "round_to_53 (45 * 6305039478318694) = 8866461766385663 * 2 ^ 5"
    unfolding round_to_53_def b by (simp add: Let_def)
  then show ?thesis by (simp add: times_1_4_eq)
qed

lemma target_weight_times_1_4_finite:
  assumes "1 \<le> t" and "t \<le> 2 ^ 49"
  shows "target_weight_times_1_4 t = Inr (Finite (times_1_4 t))"
proof -
  define R where "R = round_to_53 (t * 6305039478318694)"
  have b: "2 ^ 53 * \<bar>R - t * 6305039478318694\<bar> \<le> t * 6305039478318694"
    unfolding R_def using assms(1) by (intro round_to_53_error) simp
  have "\<bar>R - t * 6305039478318694\<bar> \<le> 2 ^ 53 * \<bar>R - t * 6305039478318694\<bar>"
    by simp
  with b have "\<bar>R - t * 6305039478318694\<bar> \<le> t * 6305039478318694" by linarith
  then have R: "0 \<le> R" "R \<le> 2 * (t * 6305039478318694)" by linarith+
  have t: "t \<le> 562949953421312" using assms(2) by simp
  have t53: "t < 2 ^ 53" using t by simp
  have small: "round_to_53 \<bar>t\<bar> = t"
    using assms(1) t53 by (simp add: round_to_53_small)
  have "R \<le> 10141204801825835211973625643008" using R(2) t by linarith
  then have "real_of_int R \<le> 10141204801825835211973625643008" by linarith
  then have le: "real_of_int R / 2 ^ 52 \<le> 2 ^ 51" by (simp add: field_simps)
  have ge: "0 \<le> real_of_int R / 2 ^ 52" using R(1) by simp
  have big: "(2::real) ^ 51 < 2 ^ 1024" by (rule power_strict_increasing) simp_all
  have v: "times_1_4 t = real_of_int R / 2 ^ 52"
    using assms(1) t53 by (simp add: times_1_4_eq R_def)
  have c2: "\<not> 2 ^ 1024 \<le> \<bar>times_1_4 t\<bar>"
    unfolding v using le ge big by linarith
  have "(2::int) ^ 49 < 2 ^ 1024" by (rule power_strict_increasing) simp_all
  with assms(2) have c1: "\<not> 2 ^ 1024 \<le> round_to_53 \<bar>t\<bar>"
    unfolding small by linarith
  show ?thesis
    unfolding target_weight_times_1_4_def by (simp only: c1 c2 if_False)
qed

lemma round_to_53_power_1024: "round_to_53 (2 ^ 1024) = 2 ^ 1024"
proof -
  define E :: int where "E = 2 ^ 972"
  define H :: int where "H = 2 ^ 971"
  have E: "0 < E" and H: "0 < H" by (simp_all add: E_def H_def)
  have p: "(2::int) ^ 1024 = 2 ^ 52 * E"
    unfolding E_def by (simp only: power_add [symmetric]) simp
  have b: "bitlen (2 ^ 1024) = 1025"
    using bitlen_eqI [of 1024 "2 ^ 1024"] by simp
  have e1: "nat (1025 - 53) = 972" and e2: "nat (1025 - 53 - 1) = 971" by simp_all
  have q: "2 ^ 52 * E div E = 2 ^ 52" using E by simp
  have r: "2 ^ 52 * E mod E = 0" by simp
  have n: "\<not> (1025::int) - 53 \<le> 0" by simp
  have c: "\<not> (H < 0 \<or> (0 = H \<and> odd ((2::int) ^ 52)))" using H by simp
  show ?thesis
    unfolding round_to_53_def b Let_def e1 e2 E_def [symmetric] H_def [symmetric]
    unfolding p q r
    by (simp only: n c if_False)
qed

subsection \<open>Job generation\<close>

lemma chunks_from_closed:
  assumes "1 \<le> t" and "pos < count"
  shows "chunks_from pos count t =
     map (\<lambda>i. (pos + int i * t, pos + int i * t + t)) [0..<nat ((count - pos - 1) div t)] @
     [(pos + ((count - pos - 1) div t) * t, count)]"
  using assms
proof (induction pos count t rule: chunks_from.induct)
  case (1 pos count t)
  show ?case
  proof (cases "t < count - pos")
    case True
    define q' where "q' = (count - (pos + t) - 1) div t"
    have q: "(count - pos - 1) div t = q' + 1"
    proof -
      have "count - pos - 1 = (count - (pos + t) - 1) + t" by simp
      moreover have "t \<noteq> 0" using "1.prems"(1) by simp
      ultimately show ?thesis unfolding q'_def by (metis div_add_self2)
    qed
    have q0: "0 \<le> q'"
      unfolding q'_def using True "1.prems"(1) by (simp add: pos_imp_zdiv_nonneg_iff)
    have n: "nat (q' + 1) = Suc (nat q')" using q0 by simp
    have ih: "chunks_from (pos + t) count t =
       map (\<lambda>i. (pos + t + int i * t, pos + t + int i * t + t)) [0..<nat q'] @
       [(pos + t + q' * t, count)]"
      unfolding q'_def using "1.IH" "1.prems" True by simp
    have m: "map (\<lambda>i. (pos + int i * t, pos + int i * t + t)) [0..<Suc (nat q')] =
       (pos, pos + t) # map (\<lambda>i. (pos + t + int i * t, pos + t + int i * t + t)) [0..<nat q']"
      by (simp add: map_upt_Suc algebra_simps del: upt_Suc)
    have step: "chunks_from pos count t = (pos, pos + t) # chunks_from (pos + t) count t"
      using True "1.prems"(1) by (subst chunks_from.simps) simp
    have last: "pos + t + q' * t = pos + (q' + 1) * t" by (simp add: algebra_simps)
    show ?thesis
      unfolding q n m step ih last by simp
  next
    case False
    then have "(count - pos - 1) div t = 0"
      using "1.prems" by simp
    then show ?thesis
      using False by (subst chunks_from.simps) simp
  qed
qed

lemma scan_jobs_chunked:
  assumes "1 \<le> t" and "1 \<le> n"
    and "target_weight_times_1_4 t = Inr x" and "int_gt_float n x"
  shows "scan_jobs scanno start n t = Inr (split_jobs scanno start n t)"
  using assms
  by (simp add: scan_jobs_def split_jobs_def chunk_slicer_def chunks_from_closed Let_def
      algebra_simps)

lemma scan_jobs_single:
  assumes "target_weight_times_1_4 t = Inr x" and "\<not> int_gt_float n x"
  shows "scan_jobs scanno start n t = Inr (one_job scanno start n)"
  using assms by (simp add: scan_jobs_def one_job_def)

lemma remainder_bounds:
  fixes n t :: int
  assumes "1 \<le> n" and "1 \<le> t"
  shows "0 \<le> (n - 1) div t" and "1 \<le> n - (n - 1) div t * t" and "n - (n - 1) div t * t \<le> t"
proof -
  have m: "n - 1 = (n - 1) div t * t + (n - 1) mod t" by simp
  have "0 \<le> (n - 1) mod t" and "(n - 1) mod t < t" using assms by simp_all
  with m show "1 \<le> n - (n - 1) div t * t" and "n - (n - 1) div t * t \<le> t" by linarith+
  show "0 \<le> (n - 1) div t" using assms by (simp add: pos_imp_zdiv_nonneg_iff)
qed

lemma split_jobs_length: "length (split_jobs scanno start n t) = Suc (nat ((n - 1) div t))"
  by (simp add: split_jobs_def Let_def)

lemma split_jobs_nth:
  assumes "i \<le> nat ((n - 1) div t)" and "0 \<le> (n - 1) div t"
  shows "split_jobs scanno start n t ! i =
     \<lparr>scan = scanno, firstpoint = start + int i * t,
      lastpoint = (if i < nat ((n - 1) div t) then start + int i * t + t - 1 else start + n - 1),
      weight = (if i < nat ((n - 1) div t) then t else n - (n - 1) div t * t)\<rparr>"
proof (cases "i < nat ((n - 1) div t)")
  case True
  then show ?thesis by (simp add: split_jobs_def Let_def nth_append)
next
  case False
  with assms have "i = nat ((n - 1) div t)" by simp
  then show ?thesis using assms(2) by (simp add: split_jobs_def Let_def nth_append)
qed

lemma split_jobs_partition:
  fixes scanno start n t :: int
  assumes n: "1 \<le> n" and t: "1 \<le> t"
  defines "js \<equiv> split_jobs scanno start n t"
  shows "js \<noteq> []" and "firstpoint (hd js) = start" and "lastpoint (last js) = start + n - 1"
    and "\<forall>i. Suc i < length js \<longrightarrow> firstpoint (js ! Suc i) = lastpoint (js ! i) + 1"
    and "\<forall>i k. i < k \<and> k < length js \<longrightarrow> lastpoint (js ! i) < firstpoint (js ! k)"
    and "\<forall>i < length js. scan (js ! i) = scanno \<and> 1 \<le> weight (js ! i) \<and>
           weight (js ! i) = lastpoint (js ! i) - firstpoint (js ! i) + 1"
    and "sum_list (map weight js) = n"
proof -
  define q where "q = (n - 1) div t"
  have q0: "0 \<le> q" and r1: "1 \<le> n - q * t" and rt: "n - q * t \<le> t"
    unfolding q_def using remainder_bounds [OF n t] by simp_all
  have len: "length js = Suc (nat q)" by (simp add: js_def q_def split_jobs_length)
  have nth: "js ! i =
     \<lparr>scan = scanno, firstpoint = start + int i * t,
      lastpoint = (if i < nat q then start + int i * t + t - 1 else start + n - 1),
      weight = (if i < nat q then t else n - q * t)\<rparr>" if "i \<le> nat q" for i
    unfolding js_def q_def using that q0 by (intro split_jobs_nth) (simp_all add: q_def)
  show ne: "js \<noteq> []" using len by auto
  show "firstpoint (hd js) = start"
    using ne nth [of 0] by (simp add: hd_conv_nth)
  show "lastpoint (last js) = start + n - 1"
    using ne nth [of "nat q"] len by (simp add: last_conv_nth)
  show "\<forall>i. Suc i < length js \<longrightarrow> firstpoint (js ! Suc i) = lastpoint (js ! i) + 1"
  proof (intro allI impI)
    fix i assume "Suc i < length js"
    then have i: "i < nat q" using len by simp
    then show "firstpoint (js ! Suc i) = lastpoint (js ! i) + 1"
      using nth [of i] nth [of "Suc i"] by (simp add: algebra_simps)
  qed
  show "\<forall>i k. i < k \<and> k < length js \<longrightarrow> lastpoint (js ! i) < firstpoint (js ! k)"
  proof (intro allI impI)
    fix i k assume a: "i < k \<and> k < length js"
    then have i: "i < nat q" and k: "k \<le> nat q" using len by simp_all
    have "int i + 1 \<le> int k" using a by simp
    then have "(int i + 1) * t \<le> int k * t" using t by (intro mult_right_mono) simp_all
    then show "lastpoint (js ! i) < firstpoint (js ! k)"
      using nth [of i] nth [OF k] i by (simp add: algebra_simps)
  qed
  show "\<forall>i < length js. scan (js ! i) = scanno \<and> 1 \<le> weight (js ! i) \<and>
           weight (js ! i) = lastpoint (js ! i) - firstpoint (js ! i) + 1"
  proof (intro allI impI)
    fix i assume "i < length js"
    then have i: "i \<le> nat q" using len by simp
    show "scan (js ! i) = scanno \<and> 1 \<le> weight (js ! i) \<and>
           weight (js ! i) = lastpoint (js ! i) - firstpoint (js ! i) + 1"
    proof (cases "i < nat q")
      case True
      then show ?thesis using nth [OF i] t by simp
    next
      case False
      with i have "int i = q" using q0 by simp
      then show ?thesis using nth [OF i] False r1 by (simp add: algebra_simps)
    qed
  qed
  have "sum_list (map weight js) = int (nat q) * t + (n - q * t)"
    by (simp add: js_def split_jobs_def Let_def q_def [symmetric] comp_def sum_list_triv
        del: upt_Suc)
  then show "sum_list (map weight js) = n" using q0 by simp
qed


text \<open>
  The generator on one scan: the jobs of that scan, from point 0 with the point count
  of the file, or from the first point of the configured range with its length.
\<close>

lemma generate_jobs_one_scan:
  "generate_jobs target_weight get_pointcount config [scanno] =
     (case pr config of
        Some (pr0, pr1) \<Rightarrow>
          (case scan_jobs scanno pr0 (pr1 - pr0 + 1) (target_weight (base_config config)) of
             Inl e \<Rightarrow> ([], Some e)
           | Inr jobs \<Rightarrow> (jobs, None))
      | None \<Rightarrow>
          (case get_pointcount scanno of
             Inl e \<Rightarrow> ([], Some e)
           | Inr n \<Rightarrow>
               (case scan_jobs scanno 0 n (target_weight (base_config config)) of
                  Inl e \<Rightarrow> ([], Some e)
                | Inr jobs \<Rightarrow> (jobs, None))))"
  by (simp add: bind_exn_def split: option.split sum.split prod.split)

lemma target_weight_times_1_4_30: "target_weight_times_1_4 30 = Inr (Finite 42)"
  using target_weight_times_1_4_finite [of 30] by (simp add: times_1_4_30)

lemma target_weight_times_1_4_45:
  "target_weight_times_1_4 45 = Inr (Finite (8866461766385663 / 2 ^ 47))"
  using target_weight_times_1_4_finite [of 45] by (simp add: times_1_4_45)

lemma scan_jobs_100_30:
  "scan_jobs scanno 0 100 30 =
     Inr [\<lparr>scan = scanno, firstpoint = 0, lastpoint = 29, weight = 30\<rparr>,
          \<lparr>scan = scanno, firstpoint = 30, lastpoint = 59, weight = 30\<rparr>,
          \<lparr>scan = scanno, firstpoint = 60, lastpoint = 89, weight = 30\<rparr>,
          \<lparr>scan = scanno, firstpoint = 90, lastpoint = 99, weight = 10\<rparr>]"
  by (simp add: scan_jobs_def target_weight_times_1_4_30 int_gt_float_def chunk_slicer_def
      chunks_from.simps)

lemma scan_jobs_40_30:
  "scan_jobs scanno 0 40 30 =
     Inr [\<lparr>scan = scanno, firstpoint = 0, lastpoint = 39, weight = 40\<rparr>]"
  by (simp add: scan_jobs_def target_weight_times_1_4_30 int_gt_float_def)

lemma scan_jobs_42_30:
  "scan_jobs scanno 0 42 30 =
     Inr [\<lparr>scan = scanno, firstpoint = 0, lastpoint = 41, weight = 42\<rparr>]"
  by (simp add: scan_jobs_def target_weight_times_1_4_30 int_gt_float_def)

lemma scan_jobs_43_30:
  "scan_jobs scanno 0 43 30 =
     Inr [\<lparr>scan = scanno, firstpoint = 0, lastpoint = 29, weight = 30\<rparr>,
          \<lparr>scan = scanno, firstpoint = 30, lastpoint = 42, weight = 13\<rparr>]"
  by (simp add: scan_jobs_def target_weight_times_1_4_30 int_gt_float_def chunk_slicer_def
      chunks_from.simps)

lemma scan_jobs_63_45:
  "scan_jobs scanno 0 63 45 =
     Inr [\<lparr>scan = scanno, firstpoint = 0, lastpoint = 44, weight = 45\<rparr>,
          \<lparr>scan = scanno, firstpoint = 45, lastpoint = 62, weight = 18\<rparr>]"
  by (simp add: scan_jobs_def target_weight_times_1_4_45 int_gt_float_def chunk_slicer_def
      chunks_from.simps)

text \<open>
  Claim C2, as stated, promises one job whenever \<open>N \<le> 1.4 \<cdot> T\<close>. The code compares \<open>N\<close>
  with the double \<^verbatim>\<open>target_weight * 1.4\<close>, and for \<open>T = 45\<close> that product is
  62.99999999999999, below 63: the scan of 63 points is split in two although
  \<open>63 \<le> 1.4 \<cdot> 45\<close>.
\<close>

theorem scan_jobs_boundary_counterexample:
  "real_of_int 63 \<le> 1.4 * real_of_int 45 \<and>
   scan_jobs 1 0 63 45 =
     Inr [\<lparr>scan = 1, firstpoint = 0, lastpoint = 44, weight = 45\<rparr>,
          \<lparr>scan = 1, firstpoint = 45, lastpoint = 62, weight = 18\<rparr>] \<and>
   scan_jobs 1 0 63 45 \<noteq> Inr (one_job 1 0 63)"
  by (simp add: scan_jobs_63_45 one_job_def)

text \<open>
  Claim C2, amended. For every scan of \<open>N \<ge> 1\<close> points and every integer target weight
  \<open>T\<close> from 1 to \<open>2^49\<close>: when \<open>N < 1.4 \<cdot> T\<close> there is exactly one job, which covers the
  whole range and has weight \<open>N\<close>; when \<open>N > 1.4 \<cdot> T\<close> there are consecutive jobs of \<open>T\<close>
  points and weight \<open>T\<close> and then one final job with the remainder, whose weight is its
  length, between 1 and \<open>T\<close>; when \<open>N = 1.4 \<cdot> T\<close> exactly, the double product
  \<^verbatim>\<open>target_weight * 1.4\<close> decides: the scan is split if and only if that product is
  below \<open>N\<close>. No exception is raised. In particular \<open>N = 100, T = 30\<close> gives the four
  jobs [0,29], [30,59], [60,89], [90,99] with weights 30, 30, 30, 10; \<open>N = 40\<close> and
  \<open>N = 42\<close> with \<open>T = 30\<close> give one job; \<open>N = 43, T = 30\<close> gives two jobs with weights 30
  and 13.
\<close>

theorem scan_jobs_threshold_and_split:
  assumes "1 \<le> n" and "1 \<le> t" and "t \<le> 2 ^ 49"
  shows "(5 * n < 7 * t \<longrightarrow> scan_jobs scanno start n t = Inr (one_job scanno start n)) \<and>
   (7 * t < 5 * n \<longrightarrow> scan_jobs scanno start n t = Inr (split_jobs scanno start n t)) \<and>
   (5 * n = 7 * t \<longrightarrow>
      scan_jobs scanno start n t =
        Inr (if times_1_4 t < real_of_int n then split_jobs scanno start n t
             else one_job scanno start n)) \<and>
   1 \<le> n - (n - 1) div t * t \<and> n - (n - 1) div t * t \<le> t \<and>
   scan_jobs scanno 0 100 30 =
     Inr [\<lparr>scan = scanno, firstpoint = 0, lastpoint = 29, weight = 30\<rparr>,
          \<lparr>scan = scanno, firstpoint = 30, lastpoint = 59, weight = 30\<rparr>,
          \<lparr>scan = scanno, firstpoint = 60, lastpoint = 89, weight = 30\<rparr>,
          \<lparr>scan = scanno, firstpoint = 90, lastpoint = 99, weight = 10\<rparr>] \<and>
   scan_jobs scanno 0 40 30 =
     Inr [\<lparr>scan = scanno, firstpoint = 0, lastpoint = 39, weight = 40\<rparr>] \<and>
   scan_jobs scanno 0 42 30 =
     Inr [\<lparr>scan = scanno, firstpoint = 0, lastpoint = 41, weight = 42\<rparr>] \<and>
   scan_jobs scanno 0 43 30 =
     Inr [\<lparr>scan = scanno, firstpoint = 0, lastpoint = 29, weight = 30\<rparr>,
          \<lparr>scan = scanno, firstpoint = 30, lastpoint = 42, weight = 13\<rparr>]"
proof (intro conjI impI)
  note fin = target_weight_times_1_4_finite [OF assms(2,3)]
  {
    assume "5 * n < 7 * t"
    then have "\<not> int_gt_float n (Finite (times_1_4 t))"
      using times_1_4_above [OF assms(2,3)] by (simp add: int_gt_float_def not_less)
    then show "scan_jobs scanno start n t = Inr (one_job scanno start n)"
      using fin by (intro scan_jobs_single)
  next
    assume "7 * t < 5 * n"
    then have "int_gt_float n (Finite (times_1_4 t))"
      using times_1_4_below [OF assms(2,3)] by (simp add: int_gt_float_def)
    then show "scan_jobs scanno start n t = Inr (split_jobs scanno start n t)"
      using fin assms by (intro scan_jobs_chunked)
  next
    show "scan_jobs scanno start n t =
        Inr (if times_1_4 t < real_of_int n then split_jobs scanno start n t
             else one_job scanno start n)"
    proof (cases "times_1_4 t < real_of_int n")
      case True
      then have "int_gt_float n (Finite (times_1_4 t))" by (simp add: int_gt_float_def)
      then show ?thesis using True fin assms by (simp add: scan_jobs_chunked)
    next
      case False
      then have "\<not> int_gt_float n (Finite (times_1_4 t))" by (simp add: int_gt_float_def)
      then show ?thesis using False fin by (simp add: scan_jobs_single)
    qed
  next
    show "1 \<le> n - (n - 1) div t * t" and "n - (n - 1) div t * t \<le> t"
      using remainder_bounds [OF assms(1,2)] by simp_all
  }
qed (rule scan_jobs_100_30 scan_jobs_40_30 scan_jobs_42_30 scan_jobs_43_30)+

theorem scan_jobs_threshold_and_split_witness:
  "(1::int) \<le> 100 \<and> (1::int) \<le> 30 \<and> (30::int) \<le> 2 ^ 49 \<and> (7::int) * 30 < 5 * 100 \<and>
   scan_jobs 7 0 100 30 = Inr (split_jobs 7 0 100 30) \<and>
   (5::int) * 40 < 7 * 30 \<and> scan_jobs 7 0 40 30 = Inr (one_job 7 0 40) \<and>
   (5::int) * 42 = 7 * 30 \<and> scan_jobs 7 0 42 30 = Inr (one_job 7 0 42)"
  using scan_jobs_threshold_and_split [of 100 30 7 0]
    scan_jobs_threshold_and_split [of 40 30 7 0]
    scan_jobs_threshold_and_split [of 42 30 7 0]
  by (simp add: times_1_4_30)

text \<open>
  Claim C3, as stated, holds for every target weight \<open>T \<ge> 1\<close>. For a target weight
  beyond the range of a double the conversion of line 375 raises \<^verbatim>\<open>OverflowError\<close>
  and the scan gets no job at all: \<open>T = 2^1024\<close> is the least such power of two.
\<close>

theorem scan_jobs_overflow_counterexample:
  "(1::int) \<le> 100 \<and> (1::int) \<le> 2 ^ 1024 \<and>
   scan_jobs 1 0 100 (2 ^ 1024) =
     Inl (Exn OverflowError [''int too large to convert to float''])"
proof -
  have one: "(1::int) \<le> 2 ^ 1024" by (rule one_le_power) simp
  have a: "\<bar>(2::int) ^ 1024\<bar> = 2 ^ 1024" by (rule abs_of_nonneg) simp
  have "target_weight_times_1_4 (2 ^ 1024) =
      Inl (Exn OverflowError [''int too large to convert to float''])"
    unfolding target_weight_times_1_4_def a round_to_53_power_1024
    by (simp only: order_refl if_True)
  then have "scan_jobs 1 0 100 (2 ^ 1024) =
      Inl (Exn OverflowError [''int too large to convert to float''])"
    unfolding scan_jobs_def by (simp only: sum.case)
  with one show ?thesis by (simp only: simp_thms)
qed

text \<open>
  Claim C3, amended. For every scan of \<open>N \<ge> 1\<close> points that starts at \<open>start\<close> and every
  target weight \<open>T \<ge> 1\<close> that converts to a double (\<open>T\<close> rounded to 53 significant bits
  is below \<open>2^1024\<close>), no exception is raised, the jobs of the scan are not empty, the
  first starts at \<open>start\<close>, the last ends at \<open>start + N - 1\<close>, every job starts one point
  after the job before it ended, every earlier job ends before every later job starts,
  every job carries the scan's number and a weight of at least 1 that is its inclusive
  length \<open>lastpoint - firstpoint + 1\<close>, and the weights add up to \<open>N\<close>.
\<close>

theorem scan_jobs_partition:
  assumes "1 \<le> n" and "1 \<le> t" and "round_to_53 t < 2 ^ 1024"
  shows "\<exists>js. scan_jobs scanno start n t = Inr js \<and>
     js \<noteq> [] \<and> firstpoint (hd js) = start \<and> lastpoint (last js) = start + n - 1 \<and>
     (\<forall>i. Suc i < length js \<longrightarrow> firstpoint (js ! Suc i) = lastpoint (js ! i) + 1) \<and>
     (\<forall>i k. i < k \<and> k < length js \<longrightarrow> lastpoint (js ! i) < firstpoint (js ! k)) \<and>
     (\<forall>i < length js. scan (js ! i) = scanno \<and> 1 \<le> weight (js ! i) \<and>
         weight (js ! i) = lastpoint (js ! i) - firstpoint (js ! i) + 1) \<and>
     sum_list (map weight js) = n"
proof -
  have a: "\<bar>t\<bar> = t" using assms(2) by simp
  have c: "\<not> 2 ^ 1024 \<le> round_to_53 \<bar>t\<bar>"
    unfolding a using assms(3) by (simp only: not_le)
  have "target_weight_times_1_4 t =
      Inr (if 2 ^ 1024 \<le> \<bar>times_1_4 t\<bar> then (if 0 < t then PosInf else NegInf)
           else Finite (times_1_4 t))"
    unfolding target_weight_times_1_4_def by (simp only: c if_False if_distrib [of Inr])
  then obtain x where x: "target_weight_times_1_4 t = Inr x" by blast
  show ?thesis
  proof (cases "int_gt_float n x")
    case True
    then have eq: "scan_jobs scanno start n t = Inr (split_jobs scanno start n t)"
      using assms x by (intro scan_jobs_chunked)
    note p = split_jobs_partition [OF assms(1,2), of scanno start]
    show ?thesis
      unfolding eq by (intro exI [of _ "split_jobs scanno start n t"] conjI refl) (rule p)+
  next
    case False
    then have eq: "scan_jobs scanno start n t = Inr (one_job scanno start n)"
      using x by (intro scan_jobs_single)
    show ?thesis
      unfolding eq using assms(1)
      by (intro exI [of _ "one_job scanno start n"]) (simp add: one_job_def)
  qed
qed

theorem scan_jobs_partition_witness:
  "(1::int) \<le> 100 \<and> (1::int) \<le> 30 \<and> round_to_53 30 < 2 ^ 1024 \<and>
   scan_jobs 7 5 100 30 =
     Inr [\<lparr>scan = 7, firstpoint = 5, lastpoint = 34, weight = 30\<rparr>,
          \<lparr>scan = 7, firstpoint = 35, lastpoint = 64, weight = 30\<rparr>,
          \<lparr>scan = 7, firstpoint = 65, lastpoint = 94, weight = 30\<rparr>,
          \<lparr>scan = 7, firstpoint = 95, lastpoint = 104, weight = 10\<rparr>] \<and>
   (\<exists>js. scan_jobs 7 5 100 30 = Inr js \<and> sum_list (map weight js) = 100 \<and>
      lastpoint (last js) = 5 + 100 - 1)"
proof -
  have e: "scan_jobs 7 5 100 30 =
     Inr [\<lparr>scan = 7, firstpoint = 5, lastpoint = 34, weight = 30\<rparr>,
          \<lparr>scan = 7, firstpoint = 35, lastpoint = 64, weight = 30\<rparr>,
          \<lparr>scan = 7, firstpoint = 65, lastpoint = 94, weight = 30\<rparr>,
          \<lparr>scan = 7, firstpoint = 95, lastpoint = 104, weight = 10\<rparr>]"
    by (simp add: scan_jobs_def target_weight_times_1_4_30 int_gt_float_def chunk_slicer_def
        chunks_from.simps)
  have "(30::int) < 2 ^ 1024"
  proof -
    have "(2::int) ^ 5 < 2 ^ 1024" by (rule power_strict_increasing) simp_all
    then show ?thesis by simp
  qed
  moreover have "round_to_53 30 = 30" by (rule round_to_53_small) simp_all
  ultimately have r: "round_to_53 30 < 2 ^ 1024" by (simp only:)
  from scan_jobs_partition [of 100 30 7 5] r
  have "\<exists>js. scan_jobs 7 5 100 30 = Inr js \<and> sum_list (map weight js) = 100 \<and>
      lastpoint (last js) = 5 + 100 - 1"
    by auto
  with e r show ?thesis by simp
qed

end
